theory Spec2Isabelle
  imports Main "HOL-Library.AList"
begin

section \<open>JavaScript values, objects and promises\<close>

text \<open>
  The helper module is JavaScript. Its arguments are modelled by a datatype of JavaScript
  values; numbers are integers (the claims use no fractions), a \<^verbatim>\<open>Timestamp\<close> is a
  natural number of clock ticks, an object literal is an association list in property
  order, and a document snapshot handed back by the store carries the document id and,
  when the document exists, its fields.
\<close>

datatype "value" =
    VUndefined
  | VNull
  | VBool bool
  | VNum int
  | VStr string
  | VTime nat
  | VArr "value list"
  | VObj "(string \<times> value) list"
  | VSnap string "(string \<Rightarrow> value option) option"

type_synonym obj = "(string \<times> value) list"
type_synonym fields = "string \<Rightarrow> value option"

datatype error =
    TypeError
  | InvalidArgument
  | NotFound
  | Backend string

text \<open>
  What a caller observes of a call that returns a promise: the promise resolves, it
  rejects, it never settles, or the call throws before any promise is returned.
\<close>

datatype 'a outcome =
    Resolved 'a
  | Rejected error
  | Pending
  | Thrown error

text \<open>\<^verbatim>\<open>obj.k\<close>: a missing property reads as \<^verbatim>\<open>undefined\<close>.\<close>

definition js_prop :: "obj \<Rightarrow> string \<Rightarrow> value" where
  "js_prop ob k = (case map_of ob k of None \<Rightarrow> VUndefined | Some v \<Rightarrow> v)"

text \<open>\<^verbatim>\<open>arr[i]\<close>: reading past the end gives \<^verbatim>\<open>undefined\<close>.\<close>

definition js_nth :: "value list \<Rightarrow> nat \<Rightarrow> value" where
  "js_nth xs i = (if i < length xs then xs ! i else VUndefined)"

text \<open>\<^verbatim>\<open>arr[i] = v\<close>: writing past the end extends the array.\<close>

definition js_set_index :: "value list \<Rightarrow> nat \<Rightarrow> value \<Rightarrow> value list" where
  "js_set_index xs i v =
     (if i < length xs then xs[i := v]
      else xs @ replicate (i - length xs) VUndefined @ [v])"

text \<open>\<^verbatim>\<open>typeof v\<close> is always a string.\<close>

fun js_typeof :: "value \<Rightarrow> string" where
  "js_typeof VUndefined = ''undefined''"
| "js_typeof (VBool b) = ''boolean''"
| "js_typeof (VNum n) = ''number''"
| "js_typeof (VStr s) = ''string''"
| "js_typeof v = ''object''"

text \<open>A parameter with default \<^verbatim>\<open>= null\<close>: an omitted or \<^verbatim>\<open>undefined\<close> argument becomes \<^verbatim>\<open>null\<close>.\<close>

definition default_null :: "value \<Rightarrow> value" where
  "default_null v = (if v = VUndefined then VNull else v)"

text \<open>
  Object spread \<^verbatim>\<open>{...v}\<close>: the own enumerable properties of \<^verbatim>\<open>v\<close>. \<^verbatim>\<open>undefined\<close>,
  \<^verbatim>\<open>null\<close>, booleans and numbers contribute nothing; arrays and strings contribute their
  index keys. Timestamps and snapshots are opaque SDK objects here.
\<close>

fun digits :: "nat \<Rightarrow> string" where
  "digits n =
     (if n < 10 then [char_of (48 + n)]
      else digits (n div 10) @ [char_of (48 + n mod 10)])"

declare digits.simps [simp del]

fun js_spread :: "value \<Rightarrow> obj" where
  "js_spread (VObj fs) = fs"
| "js_spread (VArr xs) = zip (map digits [0..<length xs]) xs"
| "js_spread (VStr s) = zip (map digits [0..<length s]) (map (\<lambda>c. VStr [c]) s)"
| "js_spread v = []"

text \<open>\<^verbatim>\<open>{...base, ...v}\<close>: later properties overwrite earlier ones in place.\<close>

definition js_assign :: "obj \<Rightarrow> obj \<Rightarrow> obj" where
  "js_assign base props = foldl (\<lambda>acc kv. AList.update (fst kv) (snd kv) acc) base props"

section \<open>The backing document store\<close>

text \<open>
  Every function of the module forwards to the Firebase client SDK, which is an external
  collaborator and not part of the repository. Its documented contract is modelled by an
  in-memory store: a collection is a list of documents keyed by id (at most one per id),
  a document is a finite map from field names to values. The record \<open>world\<close> holds
  everything ambient that the module reads: the collections, the client clock behind
  \<^verbatim>\<open>Timestamp.now()\<close>, the signed-in user behind \<^verbatim>\<open>auth().currentUser\<close>, the random
  candidate from which \<^verbatim>\<open>collection.doc()\<close> makes its id, and the failure (permission
  denied, network down, an index that is missing) with which the service answers requests,
  if any.
\<close>

record world =
  colls :: "string \<Rightarrow> (string \<times> fields) list"
  clock :: nat
  current_user :: "string option"
  auto_id :: string
  fault :: "error option"

text \<open>Names of the form \<^verbatim>\<open>__.*__\<close> are reserved by the store.\<close>

definition reserved :: "string \<Rightarrow> bool" where
  "reserved s = (4 \<le> length s \<and> take 2 s = ''__'' \<and> drop (length s - 2) s = ''__'')"

text \<open>
  What the store accepts in a document: no \<^verbatim>\<open>undefined\<close>, no SDK object, no array
  directly inside an array, at any depth; field names are non-empty and not reserved.
\<close>

fun is_arr :: "value \<Rightarrow> bool" where
  "is_arr (VArr xs) = True"
| "is_arr v = False"

fun storable :: "value \<Rightarrow> bool"
  and storable_elems :: "value list \<Rightarrow> bool"
  and storable_props :: "obj \<Rightarrow> bool" where
  "storable VUndefined = False"
| "storable (VSnap i d) = False"
| "storable (VArr xs) = storable_elems xs"
| "storable (VObj fs) = storable_props fs"
| "storable VNull = True"
| "storable (VBool b) = True"
| "storable (VNum n) = True"
| "storable (VStr s) = True"
| "storable (VTime t) = True"
| "storable_elems [] = True"
| "storable_elems (x # xs) = (storable x \<and> \<not> is_arr x \<and> storable_elems xs)"
| "storable_props [] = True"
| "storable_props ((k, v) # fs) =
     (k \<noteq> [] \<and> \<not> reserved k \<and> storable v \<and> storable_props fs)"

text \<open>Paths: a string cut at a separator, empty segments kept.\<close>

fun split_on :: "char \<Rightarrow> string \<Rightarrow> string list" where
  "split_on c [] = [[]]"
| "split_on c (x # xs) =
     (if x = c then [] # split_on c xs
      else (case split_on c xs of
              [] \<Rightarrow> [[x]]
            | s # ss \<Rightarrow> (x # s) # ss))"

fun join_path :: "string list \<Rightarrow> string" where
  "join_path [] = []"
| "join_path [s] = s"
| "join_path (s # t # ss) = s @ ''/'' @ join_path (t # ss)"

text \<open>
  A collection or document name: non-empty, not \<^verbatim>\<open>.\<close> or \<^verbatim>\<open>..\<close>, not reserved, at most
  1500 bytes.
\<close>

definition segment_ok :: "string \<Rightarrow> bool" where
  "segment_ok s =
     (s \<noteq> [] \<and> s \<noteq> ''.'' \<and> s \<noteq> ''..'' \<and> \<not> reserved s \<and> length s \<le> 1500)"

definition segments_ok :: "string list \<Rightarrow> bool" where
  "segments_ok segs = (list_all segment_ok segs \<and> odd (length segs))"

text \<open>
  \<^verbatim>\<open>firestore().collection(path)\<close>: the path has an odd number of segments, each a name;
  otherwise the call is refused.
\<close>

definition valid_collection :: "string \<Rightarrow> bool" where
  "valid_collection c = segments_ok (split_on CHR ''/'' c)"

definition sdk_collection :: "string \<Rightarrow> error + string" where
  "sdk_collection c = (if valid_collection c then Inr c else Inl InvalidArgument)"

text \<open>
  \<^verbatim>\<open>collection.doc(path)\<close>: the path must be a string with an odd number of segments, each
  a name, otherwise the call is refused. The reference is the document named by the last
  segment, in the collection that the segments before it lead to.
\<close>

definition valid_doc_id :: "string \<Rightarrow> bool" where
  "valid_doc_id i = (segment_ok i \<and> CHR ''/'' \<notin> set i)"

definition doc_of_path :: "string \<Rightarrow> string \<Rightarrow> error + string \<times> string" where
  "doc_of_path c p =
     (let segs = split_on CHR ''/'' p in
      if segments_ok segs
      then Inr (if length segs = 1 then c else c @ ''/'' @ join_path (butlast segs), last segs)
      else Inl InvalidArgument)"

fun sdk_doc :: "string \<Rightarrow> value \<Rightarrow> error + string \<times> string" where
  "sdk_doc c (VStr p) = doc_of_path c p"
| "sdk_doc c v = Inl InvalidArgument"

text \<open>\<^verbatim>\<open>firestore().collection(collection).doc(id)\<close>\<close>

definition sdk_ref :: "string \<Rightarrow> value \<Rightarrow> error + string \<times> string" where
  "sdk_ref collection v =
     (case sdk_collection collection of
        Inl e \<Rightarrow> Inl e
      | Inr c \<Rightarrow> sdk_doc c v)"

text \<open>
  \<^verbatim>\<open>collection.doc()\<close> draws a random id, which the store promises is new to the
  collection. The model takes the drawn candidate when it is non-empty and unused there,
  and otherwise lengthens it beyond every id in use.
\<close>

fun longest :: "(string \<times> 'a) list \<Rightarrow> nat" where
  "longest [] = 0"
| "longest (kv # ds) = max (length (fst kv)) (longest ds)"

definition sdk_new_id :: "world \<Rightarrow> string \<Rightarrow> string" where
  "sdk_new_id w c =
     (if auto_id w \<noteq> [] \<and> map_of (colls w c) (auto_id w) = None then auto_id w
      else auto_id w @ replicate (Suc (longest (colls w c))) CHR ''0'')"

text \<open>
  \<^verbatim>\<open>ref.set(data)\<close> throws on a value the store does not accept; otherwise it replaces
  the whole document, and the promise resolves with no value.
\<close>

definition sdk_set :: "world \<Rightarrow> string \<Rightarrow> string \<Rightarrow> obj \<Rightarrow> error + (value \<times> world)" where
  "sdk_set w c i data =
     (if storable_props data
      then (case fault w of
              Some e \<Rightarrow> Inl e
            | None \<Rightarrow>
                Inr (VUndefined,
                     w\<lparr>colls := (colls w)(c := AList.update i (map_of data) (colls w c))\<rparr>))
      else Inl InvalidArgument)"

text \<open>
  \<^verbatim>\<open>ref.update(data)\<close>: each key is a field path, cut at the dots; a path with an empty
  or reserved segment or one of the characters \<^verbatim>\<open>~*/[]\<close> is refused, and so is a value
  the store does not accept. A path of one segment sets that field; a longer path sets a field
  inside the map held by the first segment, making the maps on the way as needed. The
  update fails when the document does not exist; the promise resolves with no value.
\<close>

definition field_path :: "string \<Rightarrow> string list option" where
  "field_path k =
     (let segs = split_on CHR ''.'' k in
      if list_all (\<lambda>s. s \<noteq> []) segs \<and> list_all (\<lambda>ch. \<not> List.member ''~*/[]'' ch) k
      then Some segs else None)"

definition update_path :: "string \<Rightarrow> string list option" where
  "update_path k =
     (case field_path k of
        None \<Rightarrow> None
      | Some segs \<Rightarrow> (if list_ex reserved segs then None else Some segs))"

definition flat_field :: "string \<Rightarrow> bool" where
  "flat_field k = (update_path k = Some [k])"

fun put_path :: "string list \<Rightarrow> value \<Rightarrow> obj \<Rightarrow> obj" where
  "put_path [] v fs = fs"
| "put_path [k] v fs = AList.update k v fs"
| "put_path (k # k' # ks) v fs =
     AList.update k
       (VObj (put_path (k' # ks) v (case map_of fs k of Some (VObj sub) \<Rightarrow> sub | _ \<Rightarrow> [])))
       fs"

fun merge_path :: "string list \<Rightarrow> value \<Rightarrow> fields \<Rightarrow> fields" where
  "merge_path [] v m = m"
| "merge_path [k] v m = m(k \<mapsto> v)"
| "merge_path (k # k' # ks) v m =
     m(k \<mapsto> VObj (put_path (k' # ks) v (case m k of Some (VObj sub) \<Rightarrow> sub | _ \<Rightarrow> [])))"

fun update_ok :: "obj \<Rightarrow> bool" where
  "update_ok [] = True"
| "update_ok (kv # fs) = (update_path (fst kv) \<noteq> None \<and> storable (snd kv) \<and> update_ok fs)"

fun apply_update :: "obj \<Rightarrow> fields \<Rightarrow> fields" where
  "apply_update [] m = m"
| "apply_update (kv # fs) m =
     (case update_path (fst kv) of
        None \<Rightarrow> apply_update fs m
      | Some segs \<Rightarrow> merge_path segs (snd kv) (apply_update fs m))"

definition sdk_update :: "world \<Rightarrow> string \<Rightarrow> string \<Rightarrow> obj \<Rightarrow> error + (value \<times> world)" where
  "sdk_update w c i data =
     (if update_ok data
      then (case fault w of
              Some e \<Rightarrow> Inl e
            | None \<Rightarrow>
                (case map_of (colls w c) i of
                   None \<Rightarrow> Inl NotFound
                 | Some old \<Rightarrow>
                     Inr (VUndefined,
                          w\<lparr>colls := (colls w)(c := AList.update i (apply_update data old)
                                                       (colls w c))\<rparr>)))
      else Inl InvalidArgument)"

text \<open>\<^verbatim>\<open>ref.delete()\<close> removes the document; deleting an absent document succeeds.\<close>

definition sdk_delete :: "world \<Rightarrow> string \<Rightarrow> string \<Rightarrow> error + world" where
  "sdk_delete w c i =
     (case fault w of
        Some e \<Rightarrow> Inl e
      | None \<Rightarrow> Inr (w\<lparr>colls := (colls w)(c := AList.delete i (colls w c))\<rparr>))"

text \<open>\<^verbatim>\<open>ref.get()\<close> resolves with a snapshot, which says whether the document exists.\<close>

definition sdk_get_doc :: "world \<Rightarrow> string \<Rightarrow> string \<Rightarrow> error + value" where
  "sdk_get_doc w c i =
     (case fault w of
        Some e \<Rightarrow> Inl e
      | None \<Rightarrow> Inr (VSnap i (map_of (colls w c) i)))"

definition snapshot_exists :: "value \<Rightarrow> bool" where
  "snapshot_exists v = (case v of VSnap i (Some fs) \<Rightarrow> True | _ \<Rightarrow> False)"

section \<open>Record access operations\<close>

text \<open>
  Each operation returns what the caller observes of the promise, the store afterwards
  and, where the function writes to the caller's object, that object afterwards. The
  promise executor runs synchronously, and an exception thrown inside it rejects the
  promise.
\<close>

text \<open>
  The document reference of \<^verbatim>\<open>addRecord\<close>: \<^verbatim>\<open>collection(collection).doc()\<close> when
  \<^verbatim>\<open>data.id\<close> is \<^verbatim>\<open>undefined\<close> or \<^verbatim>\<open>null\<close>, \<^verbatim>\<open>collection(collection).doc(data.id)\<close>
  otherwise. The result is the collection and the id of the reference.
\<close>

definition new_ref :: "world \<Rightarrow> string \<Rightarrow> obj \<Rightarrow> error + string \<times> string" where
  "new_ref w collection data =
     (if js_prop data ''id'' = VUndefined \<or> js_prop data ''id'' = VNull
      then (case sdk_collection collection of
              Inl e \<Rightarrow> Inl e
            | Inr c \<Rightarrow> Inr (c, sdk_new_id w c))
      else sdk_ref collection (js_prop data ''id''))"

definition addRecord :: "world \<Rightarrow> string \<Rightarrow> obj \<Rightarrow> obj outcome \<times> world \<times> obj" where
  "addRecord w collection data =
     (let data1 = AList.update ''created_at'' (VTime (clock w)) data in
      case new_ref w collection data1 of
        Inl e \<Rightarrow> (Rejected e, w, data1)
      | Inr ref \<Rightarrow>
          (let data2 = AList.update ''id'' (VStr (snd ref)) data1 in
           case sdk_set w (fst ref) (snd ref) data2 of
             Inl e \<Rightarrow> (Rejected e, w, data2)
           | Inr (snapshot, w') \<Rightarrow>
               (Resolved (js_assign [(''id'', js_prop data2 ''id'')] (js_spread snapshot)),
                w', data2)))"

definition editRecord :: "world \<Rightarrow> string \<Rightarrow> string \<Rightarrow> obj \<Rightarrow> value outcome \<times> world \<times> obj" where
  "editRecord w collection i data =
     (let data1 = AList.update ''updated_at'' (VTime (clock w)) data in
      case sdk_ref collection (VStr i) of
        Inl e \<Rightarrow> (Rejected e, w, data1)
      | Inr ref \<Rightarrow>
          (case sdk_update w (fst ref) (snd ref) data1 of
             Inl e \<Rightarrow> (Rejected e, w, data1)
           | Inr (snapshot, w') \<Rightarrow> (Resolved snapshot, w', data1)))"

definition deleteRecord :: "world \<Rightarrow> string \<Rightarrow> string \<Rightarrow> unit outcome \<times> world" where
  "deleteRecord w collection i =
     (case sdk_ref collection (VStr i) of
        Inl e \<Rightarrow> (Rejected e, w)
      | Inr ref \<Rightarrow>
          (case sdk_delete w (fst ref) (snd ref) of
             Inl e \<Rightarrow> (Rejected e, w)
           | Inr w' \<Rightarrow> (Resolved (), w')))"

text \<open>
  \<^verbatim>\<open>firebase.auth().currentUser.uid\<close> is read before the promise is created: with nobody
  signed in, \<^verbatim>\<open>currentUser\<close> is \<^verbatim>\<open>null\<close> and the property read throws.
\<close>

definition deleteRecordSoft :: "world \<Rightarrow> string \<Rightarrow> string \<Rightarrow> unit outcome \<times> world" where
  "deleteRecordSoft w collection i =
     (case current_user w of
        None \<Rightarrow> (Thrown TypeError, w)
      | Some uid \<Rightarrow>
          (let data = [(''updated_at'', VTime (clock w)),
                       (''updated_by'', VStr uid),
                       (''deleted'', VBool True)] in
           case sdk_ref collection (VStr i) of
             Inl e \<Rightarrow> (Rejected e, w)
           | Inr ref \<Rightarrow>
               (case sdk_update w (fst ref) (snd ref) data of
                  Inl e \<Rightarrow> (Rejected e, w)
                | Inr (snapshot, w') \<Rightarrow> (Resolved (), w'))))"

definition getRecord :: "world \<Rightarrow> string \<Rightarrow> string \<Rightarrow> value outcome" where
  "getRecord w collection i =
     (case sdk_ref collection (VStr i) of
        Inl e \<Rightarrow> Rejected e
      | Inr ref \<Rightarrow>
          (case sdk_get_doc w (fst ref) (snd ref) of
             Inl e \<Rightarrow> Rejected e
           | Inr snapshot \<Rightarrow> Resolved snapshot))"

section \<open>Queries against the store\<close>

text \<open>
  The store orders values first by kind (null, boolean, number, timestamp, string, and
  then the rest) and inside a kind by the usual order; strings are compared bytewise.
  Arrays and maps of one kind are not ordered further here.
\<close>

datatype ord = LT | EQ | GT

definition cmp_nat :: "nat \<Rightarrow> nat \<Rightarrow> ord" where
  "cmp_nat a b = (if a < b then LT else if b < a then GT else EQ)"

definition cmp_int :: "int \<Rightarrow> int \<Rightarrow> ord" where
  "cmp_int a b = (if a < b then LT else if b < a then GT else EQ)"

fun cmp_str :: "string \<Rightarrow> string \<Rightarrow> ord" where
  "cmp_str [] [] = EQ"
| "cmp_str [] (y # ys) = LT"
| "cmp_str (x # xs) [] = GT"
| "cmp_str (x # xs) (y # ys) =
     (case cmp_nat (of_char x) (of_char y) of EQ \<Rightarrow> cmp_str xs ys | r \<Rightarrow> r)"

fun rank :: "value \<Rightarrow> nat" where
  "rank VNull = 0"
| "rank (VBool b) = 1"
| "rank (VNum n) = 2"
| "rank (VTime t) = 3"
| "rank (VStr s) = 4"
| "rank (VArr xs) = 5"
| "rank (VObj fs) = 6"
| "rank (VSnap i d) = 7"
| "rank VUndefined = 8"

fun cmp_same :: "value \<Rightarrow> value \<Rightarrow> ord" where
  "cmp_same (VBool a) (VBool b) = cmp_nat (if a then 1 else 0) (if b then 1 else 0)"
| "cmp_same (VNum a) (VNum b) = cmp_int a b"
| "cmp_same (VTime a) (VTime b) = cmp_nat a b"
| "cmp_same (VStr a) (VStr b) = cmp_str a b"
| "cmp_same a b = EQ"

definition cmp_value :: "value \<Rightarrow> value \<Rightarrow> ord" where
  "cmp_value a b = (case cmp_nat (rank a) (rank b) of EQ \<Rightarrow> cmp_same a b | r \<Rightarrow> r)"

datatype dir = Asc | Desc

fun flip :: "dir \<Rightarrow> ord \<Rightarrow> ord" where
  "flip Asc r = r"
| "flip Desc LT = GT"
| "flip Desc GT = LT"
| "flip Desc EQ = EQ"

datatype filter_op =
    OpLt | OpLe | OpEq | OpNe | OpGe | OpGt
  | OpArrayContains | OpIn | OpNotIn | OpArrayContainsAny

definition parse_op :: "value \<Rightarrow> filter_op option" where
  "parse_op v =
     (if v = VStr ''<'' then Some OpLt
      else if v = VStr ''<='' then Some OpLe
      else if v = VStr ''=='' then Some OpEq
      else if v = VStr ''!='' then Some OpNe
      else if v = VStr ''>='' then Some OpGe
      else if v = VStr ''>'' then Some OpGt
      else if v = VStr ''array-contains'' then Some OpArrayContains
      else if v = VStr ''in'' then Some OpIn
      else if v = VStr ''not-in'' then Some OpNotIn
      else if v = VStr ''array-contains-any'' then Some OpArrayContainsAny
      else None)"

text \<open>The operators the store counts as inequalities, and those that take a list.\<close>

fun is_ineq :: "filter_op \<Rightarrow> bool" where
  "is_ineq OpLt = True"
| "is_ineq OpLe = True"
| "is_ineq OpGe = True"
| "is_ineq OpGt = True"
| "is_ineq OpNe = True"
| "is_ineq OpNotIn = True"
| "is_ineq p = False"

fun takes_list :: "filter_op \<Rightarrow> bool" where
  "takes_list OpIn = True"
| "takes_list OpNotIn = True"
| "takes_list OpArrayContainsAny = True"
| "takes_list p = False"

text \<open>The operators that may not appear in one query together with a given operator.\<close>

fun conflicting :: "filter_op \<Rightarrow> filter_op list" where
  "conflicting OpNe = [OpNe, OpNotIn]"
| "conflicting OpArrayContains = [OpArrayContains, OpArrayContainsAny, OpNotIn]"
| "conflicting OpIn = [OpArrayContainsAny, OpIn, OpNotIn]"
| "conflicting OpArrayContainsAny = [OpArrayContains, OpArrayContainsAny, OpIn, OpNotIn]"
| "conflicting OpNotIn = [OpArrayContains, OpArrayContainsAny, OpIn, OpNotIn, OpNe]"
| "conflicting p = []"

text \<open>
  A range operator only matches a field value of the same kind as the operand; \<^verbatim>\<open>!=\<close>
  and \<^verbatim>\<open>not-in\<close> never match a \<^verbatim>\<open>null\<close> field.
\<close>

fun op_holds :: "filter_op \<Rightarrow> value \<Rightarrow> value \<Rightarrow> bool" where
  "op_holds OpEq fv v = (fv = v)"
| "op_holds OpNe fv v = (fv \<noteq> VNull \<and> fv \<noteq> v)"
| "op_holds OpLt fv v = (rank fv = rank v \<and> cmp_same fv v = LT)"
| "op_holds OpLe fv v = (rank fv = rank v \<and> cmp_same fv v \<noteq> GT)"
| "op_holds OpGe fv v = (rank fv = rank v \<and> cmp_same fv v \<noteq> LT)"
| "op_holds OpGt fv v = (rank fv = rank v \<and> cmp_same fv v = GT)"
| "op_holds OpArrayContains fv v = (case fv of VArr xs \<Rightarrow> List.member xs v | _ \<Rightarrow> False)"
| "op_holds OpIn fv v = (case v of VArr ys \<Rightarrow> List.member ys fv | _ \<Rightarrow> False)"
| "op_holds OpNotIn fv v =
     (case v of
        VArr ys \<Rightarrow> fv \<noteq> VNull \<and> \<not> List.member ys VNull \<and> \<not> List.member ys fv
      | _ \<Rightarrow> False)"
| "op_holds OpArrayContainsAny fv v =
     (case fv of
        VArr xs \<Rightarrow> (case v of VArr ys \<Rightarrow> list_ex (List.member ys) xs | _ \<Rightarrow> False)
      | _ \<Rightarrow> False)"

type_synonym doc = "string \<times> fields"
type_synonym clause = "string \<times> filter_op \<times> value"

text \<open>Reading a field of a document by its path; a dotted path reads inside maps.\<close>

fun get_in :: "string list \<Rightarrow> obj \<Rightarrow> value option" where
  "get_in [] fs = None"
| "get_in [k] fs = map_of fs k"
| "get_in (k # k' # ks) fs =
     (case map_of fs k of Some (VObj sub) \<Rightarrow> get_in (k' # ks) sub | _ \<Rightarrow> None)"

fun get_path :: "string list \<Rightarrow> fields \<Rightarrow> value option" where
  "get_path [] m = None"
| "get_path [k] m = m k"
| "get_path (k # k' # ks) m =
     (case m k of Some (VObj sub) \<Rightarrow> get_in (k' # ks) sub | _ \<Rightarrow> None)"

definition read_field :: "string \<Rightarrow> doc \<Rightarrow> value option" where
  "read_field f d = (case field_path f of None \<Rightarrow> None | Some segs \<Rightarrow> get_path segs (snd d))"

definition matches :: "clause \<Rightarrow> doc \<Rightarrow> bool" where
  "matches cl d =
     (case read_field (fst cl) d of
        None \<Rightarrow> False
      | Some fv \<Rightarrow> op_holds (fst (snd cl)) fv (snd (snd cl)))"

text \<open>
  The position of a document in a sort order: by the ordered fields in turn, ties broken
  by document id in the direction of the last ordered field; with no sort, by document id
  ascending.
\<close>

fun doc_cmp :: "(string \<times> dir) list \<Rightarrow> dir \<Rightarrow> doc \<Rightarrow> doc \<Rightarrow> ord" where
  "doc_cmp [] d a b = flip d (cmp_str (fst a) (fst b))"
| "doc_cmp (fd # os) d a b =
     (case (read_field (fst fd) a, read_field (fst fd) b) of
        (Some x, Some y) \<Rightarrow>
          (case flip (snd fd) (cmp_value x y) of
             EQ \<Rightarrow> doc_cmp os (snd fd) a b
           | r \<Rightarrow> r)
      | _ \<Rightarrow> doc_cmp os (snd fd) a b)"

fun insert_by :: "('a \<Rightarrow> 'a \<Rightarrow> ord) \<Rightarrow> 'a \<Rightarrow> 'a list \<Rightarrow> 'a list" where
  "insert_by cmp x [] = [x]"
| "insert_by cmp x (y # ys) =
     (if cmp x y = GT then y # insert_by cmp x ys else x # y # ys)"

definition sort_by :: "('a \<Rightarrow> 'a \<Rightarrow> ord) \<Rightarrow> 'a list \<Rightarrow> 'a list" where
  "sort_by cmp xs = foldr (insert_by cmp) xs []"

text \<open>
  The query object of the SDK accumulates constraints; each builder method validates its
  arguments against the query so far and throws on a bad one.
\<close>

record query =
  q_coll :: string
  q_filters :: "clause list"
  q_orders :: "(string \<times> dir) list"
  q_start :: "value option"
  q_limit :: "nat option"

definition new_query :: "string \<Rightarrow> query" where
  "new_query c = \<lparr>q_coll = c, q_filters = [], q_orders = [], q_start = None, q_limit = None\<rparr>"

text \<open>
  \<^verbatim>\<open>query.where(field, op, value)\<close>: the field is a field path, the operator one of the
  store's operators, the operand a value the store accepts; \<^verbatim>\<open>null\<close> goes with \<^verbatim>\<open>==\<close>
  and \<^verbatim>\<open>!=\<close> only; the list operators take a list of one to ten elements, without
  \<^verbatim>\<open>null\<close> for \<^verbatim>\<open>in\<close> and \<^verbatim>\<open>array-contains-any\<close>.
\<close>

definition operand_ok :: "filter_op \<Rightarrow> value \<Rightarrow> bool" where
  "operand_ok p v =
     (if takes_list p
      then (case v of
              VArr xs \<Rightarrow> xs \<noteq> [] \<and> length xs \<le> 10 \<and> storable v \<and>
                         (p = OpNotIn \<or> \<not> List.member xs VNull)
            | _ \<Rightarrow> False)
      else if v = VNull then p = OpEq \<or> p = OpNe
      else storable v)"

definition parse_clause :: "value \<Rightarrow> value \<Rightarrow> value \<Rightarrow> clause option" where
  "parse_clause f opr v =
     (case f of
        VStr fld \<Rightarrow>
          (if field_path fld = None then None
           else (case parse_op opr of
                   Some p \<Rightarrow> (if operand_ok p v then Some (fld, p, v) else None)
                 | None \<Rightarrow> None))
      | _ \<Rightarrow> None)"

text \<open>
  Against the query so far: no operator that conflicts with one already there; all
  inequalities on one field; and that field is the first sort field, if there is a sort.
\<close>

fun ineq_field :: "clause list \<Rightarrow> string option" where
  "ineq_field [] = None"
| "ineq_field (cl # cls) = (if is_ineq (fst (snd cl)) then Some (fst cl) else ineq_field cls)"

definition where_ok :: "query \<Rightarrow> clause \<Rightarrow> bool" where
  "where_ok q cl =
     (list_all (\<lambda>old. \<not> List.member (conflicting (fst (snd cl))) (fst (snd old))) (q_filters q)
      \<and> (if is_ineq (fst (snd cl))
         then (ineq_field (q_filters q) = None \<or> ineq_field (q_filters q) = Some (fst cl))
              \<and> (q_orders q = [] \<or> fst (hd (q_orders q)) = fst cl)
         else True))"

definition sdk_where :: "query \<Rightarrow> value \<Rightarrow> value \<Rightarrow> value \<Rightarrow> error + query" where
  "sdk_where q f opr v =
     (case parse_clause f opr v of
        Some cl \<Rightarrow>
          (if where_ok q cl then Inr (q\<lparr>q_filters := q_filters q @ [cl]\<rparr>)
           else Inl InvalidArgument)
      | None \<Rightarrow> Inl InvalidArgument)"

text \<open>
  \<^verbatim>\<open>query.orderBy(field, direction)\<close>: the direction is optional in the SDK, which sorts
  ascending when it is \<^verbatim>\<open>undefined\<close>. A sort may not be added after a cursor, and the
  first sort must be on the field of the inequality filters, if there are any.
\<close>

definition parse_dir :: "value \<Rightarrow> dir option" where
  "parse_dir v =
     (if v = VUndefined \<or> v = VStr ''asc'' then Some Asc
      else if v = VStr ''desc'' then Some Desc
      else None)"

definition parse_order :: "value \<Rightarrow> value \<Rightarrow> (string \<times> dir) option" where
  "parse_order f d =
     (case f of
        VStr fld \<Rightarrow>
          (if field_path fld = None then None
           else (case parse_dir d of Some dr \<Rightarrow> Some (fld, dr) | None \<Rightarrow> None))
      | _ \<Rightarrow> None)"

definition order_ok :: "query \<Rightarrow> string \<times> dir \<Rightarrow> bool" where
  "order_ok q fd =
     (q_start q = None
      \<and> (q_orders q \<noteq> [] \<or> ineq_field (q_filters q) = None
           \<or> ineq_field (q_filters q) = Some (fst fd)))"

definition sdk_orderBy :: "query \<Rightarrow> value \<Rightarrow> value \<Rightarrow> error + query" where
  "sdk_orderBy q f d =
     (case parse_order f d of
        Some fd \<Rightarrow>
          (if order_ok q fd then Inr (q\<lparr>q_orders := q_orders q @ [fd]\<rparr>)
           else Inl InvalidArgument)
      | None \<Rightarrow> Inl InvalidArgument)"

text \<open>
  The order in which the store returns the documents of a query: the sorts asked for, or,
  when none was asked for, the field of the inequality filters ascending, if there are any.
\<close>

definition store_order :: "clause list \<Rightarrow> (string \<times> dir) list \<Rightarrow> (string \<times> dir) list" where
  "store_order cls os =
     (if os \<noteq> [] then os
      else (case ineq_field cls of None \<Rightarrow> [] | Some g \<Rightarrow> [(g, Asc)]))"

definition effective_orders :: "query \<Rightarrow> (string \<times> dir) list" where
  "effective_orders q = store_order (q_filters q) (q_orders q)"

text \<open>
  \<^verbatim>\<open>query.startAfter(x)\<close>: \<^verbatim>\<open>x\<close> is the snapshot of an existing document that has every
  field of the order, or a value for the first sort field (which needs a sort).
\<close>

definition valid_cursor :: "(string \<times> dir) list \<Rightarrow> (string \<times> dir) list \<Rightarrow> value \<Rightarrow> bool" where
  "valid_cursor sorts order v =
     (case v of
        VUndefined \<Rightarrow> False
      | VSnap i None \<Rightarrow> False
      | VSnap i (Some fs) \<Rightarrow> list_all (\<lambda>fd. read_field (fst fd) (i, fs) \<noteq> None) order
      | _ \<Rightarrow> sorts \<noteq> [] \<and> storable v)"

definition sdk_startAfter :: "query \<Rightarrow> value \<Rightarrow> error + query" where
  "sdk_startAfter q v =
     (if valid_cursor (q_orders q) (effective_orders q) v then Inr (q\<lparr>q_start := Some v\<rparr>)
      else Inl InvalidArgument)"

text \<open>\<^verbatim>\<open>query.limit(n)\<close>: \<^verbatim>\<open>n\<close> is a positive number.\<close>

definition parse_limit :: "value \<Rightarrow> nat option" where
  "parse_limit v = (case v of VNum n \<Rightarrow> (if 0 < n then Some (nat n) else None) | _ \<Rightarrow> None)"

definition sdk_limit :: "query \<Rightarrow> value \<Rightarrow> error + query" where
  "sdk_limit q v =
     (case parse_limit v of
        Some n \<Rightarrow> Inr (q\<lparr>q_limit := Some n\<rparr>)
      | None \<Rightarrow> Inl InvalidArgument)"

text \<open>Strictly after the cursor, in the order of the query.\<close>

definition after_cursor :: "(string \<times> dir) list \<Rightarrow> value \<Rightarrow> doc \<Rightarrow> bool" where
  "after_cursor os c d =
     (case c of
        VSnap i (Some fs) \<Rightarrow> doc_cmp os Asc (i, fs) d = LT
      | VSnap i None \<Rightarrow> False
      | _ \<Rightarrow>
          (case os of
             [] \<Rightarrow> False
           | fd # rest \<Rightarrow>
               (case read_field (fst fd) d of
                  None \<Rightarrow> False
                | Some fv \<Rightarrow> flip (snd fd) (cmp_value c fv) = LT)))"

definition has_orders :: "(string \<times> dir) list \<Rightarrow> doc \<Rightarrow> bool" where
  "has_orders os d = list_all (\<lambda>fd. read_field (fst fd) d \<noteq> None) os"

definition all_match :: "clause list \<Rightarrow> doc \<Rightarrow> bool" where
  "all_match cls d = list_all (\<lambda>cl. matches cl d) cls"

definition cut :: "nat option \<Rightarrow> 'a list \<Rightarrow> 'a list" where
  "cut lim xs = (case lim of None \<Rightarrow> xs | Some n \<Rightarrow> take n xs)"

definition resume :: "(string \<times> dir) list \<Rightarrow> value option \<Rightarrow> doc list \<Rightarrow> doc list" where
  "resume os st ds = (case st of None \<Rightarrow> ds | Some c \<Rightarrow> filter (after_cursor os c) ds)"

definition snap_of :: "doc \<Rightarrow> value" where
  "snap_of d = VSnap (fst d) (Some (snd d))"

text \<open>
  \<^verbatim>\<open>query.get()\<close>: the documents that satisfy every filter and have every field of the
  order, in that order, after the cursor, cut at the limit.
\<close>

definition select_docs :: "query \<Rightarrow> doc list \<Rightarrow> doc list" where
  "select_docs q ds =
     cut (q_limit q)
       (resume (effective_orders q) (q_start q)
          (sort_by (doc_cmp (effective_orders q) Asc)
             (filter (has_orders (effective_orders q)) (filter (all_match (q_filters q)) ds))))"

definition sdk_get_query :: "world \<Rightarrow> query \<Rightarrow> error + value list" where
  "sdk_get_query w q =
     (case fault w of
        Some e \<Rightarrow> Inl e
      | None \<Rightarrow> Inr (map snap_of (select_docs q (colls w (q_coll q)))))"

text \<open>The builder calls the module makes on a query reference, in the order made.\<close>

datatype sdk_call =
    Where "value" "value" "value"
  | OrderBy "value" "value"
  | StartAfter "value"
  | Limit "value"

fun apply_call :: "query \<Rightarrow> sdk_call \<Rightarrow> error + query" where
  "apply_call q (Where f opr v) = sdk_where q f opr v"
| "apply_call q (OrderBy f d) = sdk_orderBy q f d"
| "apply_call q (StartAfter v) = sdk_startAfter q v"
| "apply_call q (Limit v) = sdk_limit q v"

fun run_calls :: "query \<Rightarrow> sdk_call list \<Rightarrow> error + query" where
  "run_calls q [] = Inr q"
| "run_calls q (c # cs) =
     (case apply_call q c of Inl e \<Rightarrow> Inl e | Inr q' \<Rightarrow> run_calls q' cs)"

text \<open>
  What the promise of a read settles with, for a collection path and the builder calls
  made on its reference: a throw of \<^verbatim>\<open>collection\<close> or of a builder method rejects it, and
  so does a failure of \<^verbatim>\<open>get\<close>.
\<close>

definition sdk_read :: "world \<Rightarrow> string \<Rightarrow> sdk_call list \<Rightarrow> value list outcome" where
  "sdk_read w collection calls =
     (case sdk_collection collection of
        Inl e \<Rightarrow> Rejected e
      | Inr c \<Rightarrow>
          (case run_calls (new_query c) calls of
             Inl e \<Rightarrow> Rejected e
           | Inr q \<Rightarrow>
               (case sdk_get_query w q of
                  Inl e \<Rightarrow> Rejected e
                | Inr snapshot \<Rightarrow> Resolved snapshot)))"

section \<open>Collection reads and the query builder\<close>

definition getRecordAll :: "world \<Rightarrow> string \<Rightarrow> value list outcome" where
  "getRecordAll w collection =
     (case sdk_collection collection of
        Inl e \<Rightarrow> Rejected e
      | Inr ref \<Rightarrow>
          (case sdk_get_query w (new_query ref) of
             Inl e \<Rightarrow> Rejected e
           | Inr snapshot \<Rightarrow> Resolved snapshot))"

text \<open>
  \<^verbatim>\<open>queryArray.forEach(query => queryRef = queryRef.where(query[0], query[1], query[2]))\<close>
\<close>

definition where_calls :: "sdk_call list \<Rightarrow> value list list \<Rightarrow> sdk_call list" where
  "where_calls queryRef queryArray =
     foldl (\<lambda>qref query. qref @ [Where (js_nth query 0) (js_nth query 1) (js_nth query 2)])
       queryRef queryArray"

text \<open>
  The array \<^verbatim>\<open>orderBy\<close> after the statement
  \<^verbatim>\<open>if (typeof orderBy[1] === undefined) { orderBy[1] = 'asc'; }\<close>
  The comparison is between the string that \<^verbatim>\<open>typeof\<close> returns and the value
  \<^verbatim>\<open>undefined\<close>.
\<close>

definition orderBy_defaulted :: "value list \<Rightarrow> value list" where
  "orderBy_defaulted orderBy =
     (if VStr (js_typeof (js_nth orderBy 1)) = VUndefined
      then js_set_index orderBy 1 (VStr ''asc'')
      else orderBy)"

definition query_calls ::
  "value list list option \<Rightarrow> value list option \<Rightarrow> value \<Rightarrow> value \<Rightarrow> sdk_call list" where
  "query_calls queryArray orderBy startAfter limit =
     (let q1 = (case queryArray of None \<Rightarrow> [] | Some qs \<Rightarrow> where_calls [] qs);
          q2 = (case orderBy of
                  None \<Rightarrow> q1
                | Some ob \<Rightarrow>
                    q1 @ [OrderBy (js_nth (orderBy_defaulted ob) 0)
                                  (js_nth (orderBy_defaulted ob) 1)]);
          q3 = (if startAfter \<noteq> VNull then q2 @ [StartAfter startAfter] else q2);
          q4 = (if limit \<noteq> VNull then q3 @ [Limit limit] else q3)
      in q4)"

text \<open>
  \<^verbatim>\<open>queryArray\<close> and \<^verbatim>\<open>orderBy\<close> are declared as arrays defaulting to \<^verbatim>\<open>null\<close>
  (\<open>None\<close>); \<^verbatim>\<open>startAfter\<close> and \<^verbatim>\<open>limit\<close> are untyped and default to \<^verbatim>\<open>null\<close>.
\<close>

definition getRecordWithQuery ::
  "world \<Rightarrow> string \<Rightarrow> value list list option \<Rightarrow> value list option \<Rightarrow> value \<Rightarrow> value
     \<Rightarrow> value list outcome" where
  "getRecordWithQuery w collection queryArray orderBy startAfter limit =
     (case sdk_collection collection of
        Inl e \<Rightarrow> Rejected e
      | Inr ref \<Rightarrow>
          (case run_calls (new_query ref)
                  (query_calls queryArray orderBy (default_null startAfter)
                     (default_null limit)) of
             Inl e \<Rightarrow> Rejected e
           | Inr q \<Rightarrow>
               (case sdk_get_query w q of
                  Inl e \<Rightarrow> Rejected e
                | Inr snapshot \<Rightarrow> Resolved snapshot)))"

section \<open>Blob upload\<close>

text \<open>
  The object store and the network, as far as \<^verbatim>\<open>storeImageOnFirestore\<close> sees them:
  \<^verbatim>\<open>fetch(uri)\<close> rejects or resolves with a response, whose \<^verbatim>\<open>blob()\<close> rejects or
  resolves with the bytes; \<^verbatim>\<open>ref.put(blob)\<close> and \<^verbatim>\<open>ref.getDownloadURL()\<close> reject when the
  object store answers with a failure.
\<close>

type_synonym blob = "nat list"

record storage =
  fetch :: "string \<Rightarrow> error + (error + blob)"
  objects :: "string \<times> string \<Rightarrow> blob option"
  put_fault :: "error option"
  url_fault :: "error option"
  url_of :: "string \<times> string \<Rightarrow> string"

text \<open>
  The promise executor is an \<^verbatim>\<open>async\<close> function. When an awaited promise rejects, the
  executor's own promise rejects and nobody observes it: neither \<^verbatim>\<open>resolve\<close> nor
  \<^verbatim>\<open>reject\<close> of the returned promise is ever called, so that promise stays pending.
\<close>

definition storeImageOnFirestore ::
  "storage \<Rightarrow> string \<Rightarrow> string \<Rightarrow> string \<Rightarrow> string outcome \<times> storage" where
  "storeImageOnFirestore s collection userId uri =
     (case fetch s uri of
        Inl e \<Rightarrow> (Pending, s)
      | Inr response \<Rightarrow>
          (case response of
             Inl e \<Rightarrow> (Pending, s)
           | Inr blob \<Rightarrow>
               (case put_fault s of
                  Some err \<Rightarrow> (Rejected err, s)
                | None \<Rightarrow>
                    (let s' = s\<lparr>objects := (objects s)((collection, userId) \<mapsto> blob)\<rparr> in
                     case url_fault s of
                       Some err \<Rightarrow> (Rejected err, s')
                     | None \<Rightarrow> (Resolved (url_of s (collection, userId)), s')))))"

section \<open>Notions used in the statements\<close>

text \<open>The caller's object as \<^verbatim>\<open>addRecord\<close> leaves it: \<^verbatim>\<open>created_at\<close> set, then \<^verbatim>\<open>id\<close> set.\<close>

definition stamped :: "world \<Rightarrow> string \<Rightarrow> obj \<Rightarrow> obj" where
  "stamped w rid data =
     AList.update ''id'' (VStr rid) (AList.update ''created_at'' (VTime (clock w)) data)"

text \<open>The builder call that one filter clause \<^verbatim>\<open>[key, operation, compare_with]\<close> becomes.\<close>

definition clause_call :: "value list \<Rightarrow> sdk_call" where
  "clause_call query = Where (js_nth query 0) (js_nth query 1) (js_nth query 2)"

definition is_rejected :: "'a outcome \<Rightarrow> bool" where
  "is_rejected r = (case r of Rejected e \<Rightarrow> True | _ \<Rightarrow> False)"

definition is_settled :: "'a outcome \<Rightarrow> bool" where
  "is_settled r = (case r of Resolved x \<Rightarrow> True | Rejected e \<Rightarrow> True | _ \<Rightarrow> False)"

text \<open>
  The collection of the specification's query scenario, A to D with ages 17, 20, 30 and
  40, a collection of users, a collection of places whose address is a map, and a store
  holding the three, with a user signed in.
\<close>

text \<open>
  The read of the specification, step by step: start from the collection, keep the
  documents that satisfy every clause, put them in the order, resume strictly after the
  cursor, cap at the limit. The order is the sort asked for or, with no sort, the store's
  own.
\<close>

definition spec_query ::
  "doc list \<Rightarrow> clause list \<Rightarrow> (string \<times> dir) list \<Rightarrow> value option \<Rightarrow> nat option \<Rightarrow> doc list" where
  "spec_query ds cls os cur lim =
     cut lim
       (resume (store_order cls os) cur
          (sort_by (doc_cmp (store_order cls os) Asc)
             (filter (has_orders (store_order cls os)) (filter (all_match cls) ds))))"

text \<open>The clauses are accepted one after the other, each against those before it.\<close>

fun filters_ok :: "query \<Rightarrow> clause list \<Rightarrow> bool" where
  "filters_ok q [] = True"
| "filters_ok q (cl # cls) =
     (where_ok q cl \<and> filters_ok (q\<lparr>q_filters := q_filters q @ [cl]\<rparr>) cls)"

text \<open>
  Requests within the reach of the model of the store: operands and cursor values are
  scalars, no field is the document-id pseudo field, and the documents hold scalars in the
  fields that order the result.
\<close>

fun scalar :: "value \<Rightarrow> bool" where
  "scalar VNull = True"
| "scalar (VBool b) = True"
| "scalar (VNum n) = True"
| "scalar (VStr s) = True"
| "scalar (VTime t) = True"
| "scalar v = False"

definition scalar_at :: "string \<Rightarrow> doc \<Rightarrow> bool" where
  "scalar_at f d = (case read_field f d of None \<Rightarrow> True | Some v \<Rightarrow> scalar v)"

definition plain_request ::
  "doc list \<Rightarrow> clause list \<Rightarrow> (string \<times> dir) list \<Rightarrow> value option \<Rightarrow> bool" where
  "plain_request ds cls os cur =
     (list_all (\<lambda>cl. fst cl \<noteq> ''__name__'' \<and> scalar (snd (snd cl))) cls
      \<and> list_all (\<lambda>fd. fst fd \<noteq> ''__name__'' \<and> list_all (scalar_at (fst fd)) ds)
           (store_order cls os)
      \<and> (case cur of
           None \<Rightarrow> True
         | Some (VSnap i (Some fs)) \<Rightarrow>
             list_all (\<lambda>fd. scalar_at (fst fd) (i, fs)) (store_order cls os)
         | Some v \<Rightarrow> scalar v))"

definition people :: "doc list" where
  "people =
     [(''A'', [''age'' \<mapsto> VNum 17]),
      (''B'', [''age'' \<mapsto> VNum 20]),
      (''C'', [''age'' \<mapsto> VNum 30]),
      (''D'', [''age'' \<mapsto> VNum 40])]"

definition users :: "doc list" where
  "users =
     [(''u1'', [''id'' \<mapsto> VStr ''u1'', ''name'' \<mapsto> VStr ''Al'', ''created_at'' \<mapsto> VTime 90])]"

definition places :: "doc list" where
  "places =
     [(''p1'', [''address'' \<mapsto> VObj [(''city'', VStr ''Oslo''), (''zip'', VStr ''0150'')]])]"

definition demo_world :: world where
  "demo_world =
     \<lparr>colls = (\<lambda>c. if c = ''people'' then people else if c = ''users'' then users
                    else if c = ''places'' then places else []),
      clock = 100, current_user = Some ''u7'', auto_id = ''gen1'', fault = None\<rparr>"

definition demo_storage :: storage where
  "demo_storage =
     \<lparr>fetch = (\<lambda>uri. if uri = ''file:///a.png'' then Inr (Inr [137, 80, 78, 71])
                     else Inl (Backend ''Network request failed'')),
      objects = (\<lambda>p. None), put_fault = None, url_fault = None,
      url_of = (\<lambda>p. ''https://storage.example/'' @ fst p @ ''/'' @ snd p)\<rparr>"

section \<open>Facts about the model\<close>

lemma js_prop_update_other: "k \<noteq> k' \<Longrightarrow> js_prop (AList.update k v ob) k' = js_prop ob k'"
  by (simp add: js_prop_def update_conv')

lemma js_prop_update_same: "js_prop (AList.update k v ob) k = v"
  by (simp add: js_prop_def update_conv')

lemma length_update_fresh:
  "map_of al k = None \<Longrightarrow> length (AList.update k v al) = Suc (length al)"
  by (induction al) (auto split: if_splits)

lemma split_on_none: "c \<notin> set s \<Longrightarrow> split_on c s = [s]"
  by (induction s) auto

lemma doc_of_path_id: "valid_doc_id i \<Longrightarrow> doc_of_path c i = Inr (c, i)"
 
    by (simp add: valid_doc_id_def doc_of_path_def split_on_none segments_ok_def segment_ok_def reserved_def)

lemma sdk_ref_plain:
  "valid_collection c \<Longrightarrow> valid_doc_id i \<Longrightarrow> sdk_ref c (VStr i) = Inr (c, i)"
  by (simp add: sdk_ref_def sdk_collection_def doc_of_path_id)

lemma longest_bound: "(k, v) \<in> set ds \<Longrightarrow> length k \<le> longest ds"
  by (induction ds) auto

lemma sdk_new_id_fresh:
  "sdk_new_id w c \<noteq> [] \<and> map_of (colls w c) (sdk_new_id w c) = None"
proof (cases "auto_id w \<noteq> [] \<and> map_of (colls w c) (auto_id w) = None")
  case True
  then show ?thesis by (simp add: sdk_new_id_def)
next
  case False
  let ?i = "auto_id w @ replicate (Suc (longest (colls w c))) CHR ''0''"
  have "map_of (colls w c) ?i = None"
  proof (rule ccontr)
    assume "map_of (colls w c) ?i \<noteq> None"
    then obtain v where "map_of (colls w c) ?i = Some v" by blast
    then have "(?i, v) \<in> set (colls w c)" by (rule map_of_SomeD)
    then have "length ?i \<le> longest (colls w c)" by (rule longest_bound)
    then show False by simp
  qed
  with False show ?thesis by (simp add: sdk_new_id_def)
qed

lemma new_ref_created_at:
  "new_ref w c (AList.update ''created_at'' t data) = new_ref w c data"
  by (simp add: new_ref_def js_prop_update_other)

lemma sdk_set_ok:
  "storable_props d \<Longrightarrow> fault w = None \<Longrightarrow>
   sdk_set w c i d =
     Inr (VUndefined, w\<lparr>colls := (colls w)(c := AList.update i (map_of d) (colls w c))\<rparr>)"
  by (simp add: sdk_set_def)

text \<open>Once the reference exists, \<^verbatim>\<open>addRecord\<close> is the write of the stamped object.\<close>

lemma addRecord_with_ref:
  assumes "new_ref w c data = Inr (c', rid)"
  shows "addRecord w c data =
     (case sdk_set w c' rid (stamped w rid data) of
        Inl e \<Rightarrow> (Rejected e, w, stamped w rid data)
      | Inr (s, w') \<Rightarrow> (Resolved [(''id'', VStr rid)], w', stamped w rid data))"
  using assms
  by (auto simp: addRecord_def Let_def new_ref_created_at js_prop_update_same stamped_def
      sdk_set_def js_assign_def split: option.splits sum.splits)

lemma storable_props_update:
  "storable_props fs \<Longrightarrow> storable v \<Longrightarrow> k \<noteq> [] \<Longrightarrow> \<not> reserved k \<Longrightarrow>
   storable_props (AList.update k v fs)"
  by (induction fs) auto

lemma storable_stamped: "storable_props data \<Longrightarrow> storable_props (stamped w rid data)"
  by (simp add: stamped_def storable_props_update reserved_def)

lemma soft_delete_keys:
  "update_path ''updated_at'' = Some [''updated_at'']"
  "update_path ''updated_by'' = Some [''updated_by'']"
  "update_path ''deleted'' = Some [''deleted'']"
  by (simp_all add: update_path_def field_path_def reserved_def)

lemma apply_update_flat:
  "list_all (\<lambda>kv. flat_field (fst kv)) data \<Longrightarrow> apply_update data old = old ++ map_of data"
proof (induction data)
  case Nil
  then show ?case by simp
next
  case (Cons kv data)
  then have f: "update_path (fst kv) = Some [fst kv]" and r: "list_all (\<lambda>kv. flat_field (fst kv)) data"
    by (simp_all add: flat_field_def)
  have "apply_update (kv # data) old = (apply_update data old)(fst kv \<mapsto> snd kv)"
    by (simp add: f)
  also have "\<dots> = (old ++ map_of data)(fst kv \<mapsto> snd kv)"
    by (simp add: Cons.IH [OF r])
  also have "\<dots> = old ++ map_of (kv # data)"
    by (cases kv) simp
  finally show ?case .
qed

lemma update_ok_flat:
  "list_all (\<lambda>kv. flat_field (fst kv)) data \<Longrightarrow> storable_props data \<Longrightarrow> update_ok data"
proof (induction data)
  case Nil
  then show ?case by simp
next
  case (Cons kv data)
  then show ?case by (cases kv) (simp add: flat_field_def)
qed

lemma sdk_update_ok:
  "update_ok d \<Longrightarrow> fault w = None \<Longrightarrow> map_of (colls w c) i = Some old \<Longrightarrow>
   sdk_update w c i d =
     Inr (VUndefined,
          w\<lparr>colls := (colls w)(c := AList.update i (apply_update d old) (colls w c))\<rparr>)"
  by (simp add: sdk_update_def)

lemma soft_delete_update_ok:
  "update_ok [(''updated_at'', VTime t), (''updated_by'', VStr u), (''deleted'', VBool b)]"
  by (simp add: soft_delete_keys)

lemma soft_delete_apply:
  "apply_update [(''updated_at'', VTime t), (''updated_by'', VStr u), (''deleted'', VBool b)] old
   = old(''updated_at'' \<mapsto> VTime t, ''updated_by'' \<mapsto> VStr u, ''deleted'' \<mapsto> VBool b)"
  by (rule ext) (simp add: soft_delete_keys)

lemma soft_delete_same_update:
  "sdk_update w c i
     (AList.update ''updated_at'' (VTime t) [(''updated_by'', VStr u), (''deleted'', VBool b)])
   = sdk_update w c i
       [(''updated_at'', VTime t), (''updated_by'', VStr u), (''deleted'', VBool b)]"
proof -
  have e: "AList.update ''updated_at'' (VTime t) [(''updated_by'', VStr u), (''deleted'', VBool b)]
           = [(''updated_by'', VStr u), (''deleted'', VBool b), (''updated_at'', VTime t)]"
    by simp
  have a: "apply_update [(''updated_by'', VStr u), (''deleted'', VBool b), (''updated_at'', VTime t)]
           = apply_update [(''updated_at'', VTime t), (''updated_by'', VStr u), (''deleted'', VBool b)]"
    by (rule ext, rule ext) (simp add: soft_delete_keys)
  have o: "update_ok [(''updated_by'', VStr u), (''deleted'', VBool b), (''updated_at'', VTime t)]"
    by (simp add: soft_delete_keys)
  show ?thesis
    unfolding e sdk_update_def a using o soft_delete_update_ok [of t u b] by simp
qed

lemma storeImage_write_failure_rejects:
  "storeImageOnFirestore (s\<lparr>fetch := (fetch s)(uri := Inr (Inr b)), put_fault := Some e\<rparr>) c u uri
   = (Rejected e, s\<lparr>fetch := (fetch s)(uri := Inr (Inr b)), put_fault := Some e\<rparr>)"
  by (simp add: storeImageOnFirestore_def)

lemma where_calls_conv: "where_calls acc qs = acc @ map clause_call qs"
  unfolding where_calls_def clause_call_def
  by (induction qs arbitrary: acc) simp_all

lemma orderBy_defaulted_same: "orderBy_defaulted ob = ob"
  by (simp add: orderBy_defaulted_def)

lemma run_calls_append:
  "run_calls q (xs @ ys) =
     (case run_calls q xs of Inl e \<Rightarrow> Inl e | Inr q' \<Rightarrow> run_calls q' ys)"
  by (induction xs arbitrary: q) (auto split: sum.splits)

lemma query_calls_stages:
  "query_calls qa ob sa lim =
     (case qa of None \<Rightarrow> [] | Some qs \<Rightarrow> map clause_call qs)
     @ (case ob of None \<Rightarrow> [] | Some b \<Rightarrow> [OrderBy (js_nth b 0) (js_nth b 1)])
     @ (if sa = VNull then [] else [StartAfter sa])
     @ (if lim = VNull then [] else [Limit lim])"
  by (simp add: query_calls_def where_calls_conv orderBy_defaulted_same Let_def
      split: option.splits)

lemma getRecordWithQuery_read:
  "getRecordWithQuery w c qa ob sa lim =
     sdk_read w c (query_calls qa ob (default_null sa) (default_null lim))"
  by (simp add: getRecordWithQuery_def sdk_read_def)

lemma run_where_calls:
  "map (\<lambda>query. parse_clause (js_nth query 0) (js_nth query 1) (js_nth query 2)) qs
     = map Some cls \<Longrightarrow>
   filters_ok q cls \<Longrightarrow>
   run_calls q (map clause_call qs) = Inr (q\<lparr>q_filters := q_filters q @ cls\<rparr>)"
proof (induction qs arbitrary: q cls)
  case Nil
  then show ?case by simp
next
  case (Cons a qs)
  then obtain cl rest where cls: "cls = cl # rest" by (cases cls) auto
  with Cons.prems
  have a: "parse_clause (js_nth a 0) (js_nth a 1) (js_nth a 2) = Some cl"
    and r: "map (\<lambda>query. parse_clause (js_nth query 0) (js_nth query 1) (js_nth query 2)) qs
              = map Some rest"
    and ok: "where_ok q cl"
    and oks: "filters_ok (q\<lparr>q_filters := q_filters q @ [cl]\<rparr>) rest"
    by simp_all
  show ?case
    using Cons.IH [OF r oks] a ok
    by (simp add: clause_call_def sdk_where_def cls)
qed




lemma run_filters:
  assumes "map (\<lambda>query. parse_clause (js_nth query 0) (js_nth query 1) (js_nth query 2))
             (case qa of None \<Rightarrow> [] | Some qs \<Rightarrow> qs) = map Some cls"
    and "filters_ok (new_query c) cls"
  shows "run_calls (new_query c) (case qa of None \<Rightarrow> [] | Some qs \<Rightarrow> map clause_call qs)
         = Inr ((new_query c)\<lparr>q_filters := cls\<rparr>)"
proof (cases qa)
  case None
  with assms(1) show ?thesis by (simp add: new_query_def)
next
  case (Some qs)
  with assms(1) have "map (\<lambda>query. parse_clause (js_nth query 0) (js_nth query 1)
                        (js_nth query 2)) qs = map Some cls" by simp
  from run_where_calls [OF this assms(2)] Some show ?thesis
    by (simp add: new_query_def)
qed

lemma run_sort:
  assumes "map (\<lambda>b. parse_order (js_nth b 0) (js_nth b 1))
             (case ob of None \<Rightarrow> [] | Some b \<Rightarrow> [b]) = map Some os"
    and "os = [] \<or> ineq_field cls = None \<or> ineq_field cls = Some (fst (hd os))"
  shows "run_calls ((new_query c)\<lparr>q_filters := cls\<rparr>)
           (case ob of None \<Rightarrow> [] | Some b \<Rightarrow> [OrderBy (js_nth b 0) (js_nth b 1)])
         = Inr ((new_query c)\<lparr>q_filters := cls, q_orders := os\<rparr>)"
proof (cases ob)
  case None
  with assms(1) show ?thesis by (simp add: new_query_def)
next
  case (Some b)
  with assms(1) obtain fd where fd: "parse_order (js_nth b 0) (js_nth b 1) = Some fd"
    and os: "os = [fd]" by (cases os) auto
  from assms(2) os have "ineq_field cls = None \<or> ineq_field cls = Some (fst fd)" by simp
  then show ?thesis
    using Some fd os by (auto simp: sdk_orderBy_def order_ok_def new_query_def)
qed

lemma run_cursor:
  assumes "cur = (if default_null sa = VNull then None else Some sa)"
    and "cur = None \<or> valid_cursor os (store_order cls os) sa"
  shows "run_calls ((new_query c)\<lparr>q_filters := cls, q_orders := os\<rparr>)
           (if default_null sa = VNull then [] else [StartAfter (default_null sa)])
         = Inr ((new_query c)\<lparr>q_filters := cls, q_orders := os, q_start := cur\<rparr>)"
proof (cases "default_null sa = VNull")
  case True
  with assms(1) show ?thesis by (simp add: new_query_def)
next
  case False
  then have d: "default_null sa = sa" by (simp add: default_null_def split: if_splits)
  from False assms have "valid_cursor os (store_order cls os) sa" and "cur = Some sa" by simp_all
  then show ?thesis
    using False d by (simp add: sdk_startAfter_def effective_orders_def new_query_def)
qed

lemma run_limit:
  assumes "(default_null lim = VNull \<and> k = None) \<or> (parse_limit lim = Some n \<and> k = Some n)"
  shows "run_calls ((new_query c)\<lparr>q_filters := cls, q_orders := os, q_start := cur\<rparr>)
           (if default_null lim = VNull then [] else [Limit (default_null lim)])
         = Inr ((new_query c)\<lparr>q_filters := cls, q_orders := os, q_start := cur, q_limit := k\<rparr>)"
proof (cases "default_null lim = VNull")
  case True
  then have "parse_limit lim = None"
    by (auto simp: default_null_def parse_limit_def split: if_splits)
  with True assms show ?thesis by (simp add: new_query_def)
next
  case False
  then have d: "default_null lim = lim" by (simp add: default_null_def split: if_splits)
  from False assms have "parse_limit lim = Some n" and "k = Some n" by simp_all
  then show ?thesis
    using False d by (simp add: sdk_limit_def new_query_def)
qed

lemma full_query:
  assumes "fault w = None" and "valid_collection c"
    and "map (\<lambda>query. parse_clause (js_nth query 0) (js_nth query 1) (js_nth query 2))
           (case qa of None \<Rightarrow> [] | Some qs \<Rightarrow> qs) = map Some cls"
    and "filters_ok (new_query c) cls"
    and "map (\<lambda>b. parse_order (js_nth b 0) (js_nth b 1))
           (case ob of None \<Rightarrow> [] | Some b \<Rightarrow> [b]) = map Some os"
    and "os = [] \<or> ineq_field cls = None \<or> ineq_field cls = Some (fst (hd os))"
    and "cur = (if default_null sa = VNull then None else Some sa)"
    and "cur = None \<or> valid_cursor os (store_order cls os) sa"
    and "(default_null lim = VNull \<and> k = None) \<or> (parse_limit lim = Some n \<and> k = Some n)"
  shows "getRecordWithQuery w c qa ob sa lim =
           Resolved (map snap_of (spec_query (colls w c) cls os cur k))"
proof -
  have "run_calls (new_query c) (query_calls qa ob (default_null sa) (default_null lim))
        = Inr ((new_query c)\<lparr>q_filters := cls, q_orders := os, q_start := cur, q_limit := k\<rparr>)"
    unfolding query_calls_stages run_calls_append
      run_filters [OF assms(3,4)] sum.case run_sort [OF assms(5,6)]
      run_cursor [OF assms(7,8)] run_limit [OF assms(9)]
    by (rule refl)
  then show ?thesis
    using assms(1,2)
    by (simp add: getRecordWithQuery_read sdk_read_def sdk_collection_def sdk_get_query_def
        select_docs_def spec_query_def effective_orders_def new_query_def)
qed

lemma age_path: "field_path ''age'' = Some [''age'']"
  by (simp add: field_path_def)

lemmas query_eval =
  getRecordWithQuery_def query_calls_def where_calls_def js_nth_def orderBy_defaulted_def
  default_null_def new_query_def sdk_collection_def valid_collection_def segments_ok_def segment_ok_def reserved_def
  sdk_where_def parse_clause_def parse_op_def operand_ok_def where_ok_def
  sdk_orderBy_def parse_order_def parse_dir_def order_ok_def sdk_limit_def parse_limit_def
  sdk_startAfter_def valid_cursor_def effective_orders_def store_order_def after_cursor_def
  sdk_get_query_def demo_world_def people_def select_docs_def cut_def resume_def sort_by_def
  all_match_def has_orders_def matches_def read_field_def age_path
  cmp_value_def cmp_nat_def cmp_int_def snap_of_def

lemma people_query_page1:
  "getRecordWithQuery demo_world ''people'' (Some [[VStr ''age'', VStr ''>'', VNum 18]])
     (Some [VStr ''age'', VStr ''asc'']) VNull (VNum 2)
   = Resolved [VSnap ''B'' (Some [''age'' \<mapsto> VNum 20]), VSnap ''C'' (Some [''age'' \<mapsto> VNum 30])]"
  by (simp add: query_eval)

lemma people_query_page2:
  "getRecordWithQuery demo_world ''people'' (Some [[VStr ''age'', VStr ''>'', VNum 18]])
     (Some [VStr ''age'', VStr ''asc'']) (VSnap ''C'' (Some [''age'' \<mapsto> VNum 30])) (VNum 2)
   = Resolved [VSnap ''D'' (Some [''age'' \<mapsto> VNum 40])]"
  by (simp add: query_eval)


lemma people_spec_query:
  "spec_query people [(''age'', OpGt, VNum 18)] [] None (Some 2)
   = [(''B'', [''age'' \<mapsto> VNum 20]), (''C'', [''age'' \<mapsto> VNum 30])]"
  by (simp add: spec_query_def store_order_def cut_def resume_def sort_by_def all_match_def
      has_orders_def matches_def read_field_def age_path people_def cmp_value_def cmp_nat_def
      cmp_int_def)

section \<open>The claims\<close>

text \<open>
  C1. For every query request, \<^verbatim>\<open>getRecordWithQuery\<close> settles as the read whose builder
  calls are made in the fixed order filters, sort, cursor, limit, one \<^verbatim>\<open>where\<close> per
  clause in input order, with an omitted cursor or limit counting as \<^verbatim>\<open>null\<close>. For
  every request that the store accepts and that is within the reach of its model, whichever
  of filters, sort, cursor and limit are present, the read resolves with the read of the
  specification: the documents that satisfy every clause (AND), in the order, strictly
  after the cursor, at most \<open>limit\<close> many. On the collection A:17, B:20, C:30, D:40 the
  query age > 18, sorted by age ascending, limit 2 resolves with B, C in that order, and
  the same query with a cursor at C resolves with D only.
\<close>

theorem getRecordWithQuery_stage_order:
  "getRecordWithQuery w c qa ob sa lim =
     sdk_read w c
       ((case qa of None \<Rightarrow> [] | Some qs \<Rightarrow> map clause_call qs)
        @ (case ob of None \<Rightarrow> [] | Some b \<Rightarrow> [OrderBy (js_nth b 0) (js_nth b 1)])
        @ (if default_null sa = VNull then [] else [StartAfter (default_null sa)])
        @ (if default_null lim = VNull then [] else [Limit (default_null lim)]))
   \<and> (fault w = None \<and> valid_collection c
      \<and> map (\<lambda>query. parse_clause (js_nth query 0) (js_nth query 1) (js_nth query 2))
           (case qa of None \<Rightarrow> [] | Some qs \<Rightarrow> qs) = map Some cls
      \<and> filters_ok (new_query c) cls
      \<and> map (\<lambda>b. parse_order (js_nth b 0) (js_nth b 1))
           (case ob of None \<Rightarrow> [] | Some b \<Rightarrow> [b]) = map Some os
      \<and> (os = [] \<or> ineq_field cls = None \<or> ineq_field cls = Some (fst (hd os)))
      \<and> cur = (if default_null sa = VNull then None else Some sa)
      \<and> (cur = None \<or> valid_cursor os (store_order cls os) sa)
      \<and> ((default_null lim = VNull \<and> k = None) \<or> (parse_limit lim = Some n \<and> k = Some n))
      \<and> plain_request (colls w c) cls os cur
      \<longrightarrow> getRecordWithQuery w c qa ob sa lim =
            Resolved (map snap_of (spec_query (colls w c) cls os cur k)))
   \<and> getRecordWithQuery demo_world ''people'' (Some [[VStr ''age'', VStr ''>'', VNum 18]])
        (Some [VStr ''age'', VStr ''asc'']) VNull (VNum 2)
      = Resolved [VSnap ''B'' (Some [''age'' \<mapsto> VNum 20]),
                  VSnap ''C'' (Some [''age'' \<mapsto> VNum 30])]
   \<and> getRecordWithQuery demo_world ''people'' (Some [[VStr ''age'', VStr ''>'', VNum 18]])
        (Some [VStr ''age'', VStr ''asc'']) (VSnap ''C'' (Some [''age'' \<mapsto> VNum 30])) (VNum 2)
      = Resolved [VSnap ''D'' (Some [''age'' \<mapsto> VNum 40])]"
proof (intro conjI impI)
  show "getRecordWithQuery w c qa ob sa lim =
     sdk_read w c
       ((case qa of None \<Rightarrow> [] | Some qs \<Rightarrow> map clause_call qs)
        @ (case ob of None \<Rightarrow> [] | Some b \<Rightarrow> [OrderBy (js_nth b 0) (js_nth b 1)])
        @ (if default_null sa = VNull then [] else [StartAfter (default_null sa)])
        @ (if default_null lim = VNull then [] else [Limit (default_null lim)]))"
    unfolding getRecordWithQuery_read query_calls_stages by (rule refl)
next
  assume h: "fault w = None \<and> valid_collection c
      \<and> map (\<lambda>query. parse_clause (js_nth query 0) (js_nth query 1) (js_nth query 2))
           (case qa of None \<Rightarrow> [] | Some qs \<Rightarrow> qs) = map Some cls
      \<and> filters_ok (new_query c) cls
      \<and> map (\<lambda>b. parse_order (js_nth b 0) (js_nth b 1))
           (case ob of None \<Rightarrow> [] | Some b \<Rightarrow> [b]) = map Some os
      \<and> (os = [] \<or> ineq_field cls = None \<or> ineq_field cls = Some (fst (hd os)))
      \<and> cur = (if default_null sa = VNull then None else Some sa)
      \<and> (cur = None \<or> valid_cursor os (store_order cls os) sa)
      \<and> ((default_null lim = VNull \<and> k = None) \<or> (parse_limit lim = Some n \<and> k = Some n))
      \<and> plain_request (colls w c) cls os cur"
  show "getRecordWithQuery w c qa ob sa lim =
            Resolved (map snap_of (spec_query (colls w c) cls os cur k))"
    using h by (elim conjE) (rule full_query)
next
  show "getRecordWithQuery demo_world ''people'' (Some [[VStr ''age'', VStr ''>'', VNum 18]])
        (Some [VStr ''age'', VStr ''asc'']) VNull (VNum 2)
      = Resolved [VSnap ''B'' (Some [''age'' \<mapsto> VNum 20]),
                  VSnap ''C'' (Some [''age'' \<mapsto> VNum 30])]"
    by (rule people_query_page1)
next
  show "getRecordWithQuery demo_world ''people'' (Some [[VStr ''age'', VStr ''>'', VNum 18]])
        (Some [VStr ''age'', VStr ''asc'']) (VSnap ''C'' (Some [''age'' \<mapsto> VNum 30])) (VNum 2)
      = Resolved [VSnap ''D'' (Some [''age'' \<mapsto> VNum 40])]"
    by (rule people_query_page2)
qed

theorem getRecordWithQuery_stage_order_witness:
  "fault demo_world = None \<and> valid_collection ''people''
   \<and> map (\<lambda>query. parse_clause (js_nth query 0) (js_nth query 1) (js_nth query 2))
        [[VStr ''age'', VStr ''>'', VNum 18]] = map Some [(''age'', OpGt, VNum 18)]
   \<and> filters_ok (new_query ''people'') [(''age'', OpGt, VNum 18)]
   \<and> plain_request (colls demo_world ''people'') [(''age'', OpGt, VNum 18)] [] None
   \<and> parse_limit (VNum 2) = Some 2
   \<and> getRecordWithQuery demo_world ''people'' (Some [[VStr ''age'', VStr ''>'', VNum 18]])
        None VUndefined (VNum 2)
      = Resolved [VSnap ''B'' (Some [''age'' \<mapsto> VNum 20]),
                  VSnap ''C'' (Some [''age'' \<mapsto> VNum 30])]"
proof -
  have f: "fault demo_world = None" by (simp add: demo_world_def)
  have vc: "valid_collection ''people''"
    by (simp add: valid_collection_def segments_ok_def segment_ok_def reserved_def)
  have p: "map (\<lambda>query. parse_clause (js_nth query 0) (js_nth query 1) (js_nth query 2))
        (case Some [[VStr ''age'', VStr ''>'', VNum 18]] of None \<Rightarrow> [] | Some qs \<Rightarrow> qs)
        = map Some [(''age'', OpGt, VNum 18)]"
    by (simp add: parse_clause_def parse_op_def operand_ok_def js_nth_def age_path)
  have p': "map (\<lambda>query. parse_clause (js_nth query 0) (js_nth query 1) (js_nth query 2))
        [[VStr ''age'', VStr ''>'', VNum 18]] = map Some [(''age'', OpGt, VNum 18)]"
    using p by simp
  have ok: "filters_ok (new_query ''people'') [(''age'', OpGt, VNum 18)]"
    by (simp add: where_ok_def new_query_def)
  have so: "map (\<lambda>b. parse_order (js_nth b 0) (js_nth b 1))
        (case None of None \<Rightarrow> [] | Some b \<Rightarrow> [b]) = map Some []"
    by simp
  have io: "[] = [] \<or> ineq_field [(''age'', OpGt, VNum 18)] = None
            \<or> ineq_field [(''age'', OpGt, VNum 18)] = Some (fst (hd []))"
    by simp
  have cu: "None = (if default_null VUndefined = VNull then None else Some VUndefined)"
    by (simp add: default_null_def)
  have cv: "None = None \<or> valid_cursor [] (store_order [(''age'', OpGt, VNum 18)] []) VUndefined"
    by simp
  have li: "(default_null (VNum 2) = VNull \<and> Some 2 = None)
            \<or> (parse_limit (VNum 2) = Some 2 \<and> Some 2 = Some 2)"
    by (simp add: parse_limit_def)
  have pl: "plain_request (colls demo_world ''people'') [(''age'', OpGt, VNum 18)] [] None"
    by (simp add: plain_request_def store_order_def scalar_at_def read_field_def age_path
        demo_world_def people_def)
  have lm: "parse_limit (VNum 2) = Some 2" by (simp add: parse_limit_def)
  note t = getRecordWithQuery_stage_order
      [where w = demo_world and c = "''people''"
         and qa = "Some [[VStr ''age'', VStr ''>'', VNum 18]]" and ob = None
         and sa = VUndefined and lim = "VNum 2" and cls = "[(''age'', OpGt, VNum 18)]"
         and os = "[]" and cur = None and k = "Some 2" and n = 2,
       THEN conjunct2, THEN conjunct1, rule_format]
  have "getRecordWithQuery demo_world ''people'' (Some [[VStr ''age'', VStr ''>'', VNum 18]])
        None VUndefined (VNum 2)
      = Resolved (map snap_of
          (spec_query (colls demo_world ''people'') [(''age'', OpGt, VNum 18)] [] None (Some 2)))"
    by (rule t) (intro conjI f vc p ok so io cu cv li pl)
  also have "colls demo_world ''people'' = people" by (simp add: demo_world_def)
  finally have r: "getRecordWithQuery demo_world ''people''
        (Some [[VStr ''age'', VStr ''>'', VNum 18]]) None VUndefined (VNum 2)
      = Resolved [VSnap ''B'' (Some [''age'' \<mapsto> VNum 20]),
                  VSnap ''C'' (Some [''age'' \<mapsto> VNum 30])]"
    by (simp add: people_spec_query snap_of_def)
  show ?thesis using f vc p' ok pl lm r by (intro conjI)
qed


text \<open>
  C3. \<^verbatim>\<open>addRecord("users", {name: "Al"})\<close> stores the record with its id and
  \<^verbatim>\<open>created_at\<close>, but the promise resolves with an object that has the id only: the value
  spread into the result is what \<^verbatim>\<open>set\<close> resolves with, which is nothing.
\<close>

theorem addRecord_resolves_with_id_only:
  "fst (addRecord demo_world ''users'' [(''name'', VStr ''Al'')])
     = Resolved [(''id'', VStr ''gen1'')]
   \<and> map_of (colls (fst (snd (addRecord demo_world ''users'' [(''name'', VStr ''Al'')])))
        ''users'') ''gen1''
     = Some (map_of [(''name'', VStr ''Al''), (''created_at'', VTime 100),
                     (''id'', VStr ''gen1'')])
   \<and> js_prop [(''id'', VStr ''gen1'')] ''name'' = VUndefined
   \<and> js_prop [(''id'', VStr ''gen1'')] ''created_at'' = VUndefined"
  by (simp add: addRecord_def new_ref_def js_prop_def sdk_set_def js_assign_def demo_world_def
      users_def Let_def sdk_collection_def valid_collection_def segments_ok_def segment_ok_def reserved_def sdk_new_id_def)

text \<open>
  C4, as amended. With a user signed in, \<^verbatim>\<open>deleteRecordSoft\<close> settles as, and leaves the
  store as, \<^verbatim>\<open>editRecord\<close> with \<^verbatim>\<open>{updated_by: uid, deleted: true}\<close>: on an existing
  record and an answering store it resolves and the record has exactly the fields
  \<^verbatim>\<open>updated_at\<close>, \<^verbatim>\<open>updated_by\<close> and \<^verbatim>\<open>deleted\<close> merged in; the record is the one that
  \<^verbatim>\<open>collection(collection).doc(id)\<close> refers to, which for a well-formed collection name
  and id is that collection and that id. With nobody signed in the call throws a
  \<^verbatim>\<open>TypeError\<close> before a promise exists and the store is untouched.
\<close>

theorem deleteRecordSoft_is_update:
  "(current_user w = Some uid \<longrightarrow>
      fst (deleteRecordSoft w c i) =
        map_outcome (\<lambda>s. ())
          (fst (editRecord w c i [(''updated_by'', VStr uid), (''deleted'', VBool True)]))
      \<and> snd (deleteRecordSoft w c i) =
          fst (snd (editRecord w c i [(''updated_by'', VStr uid), (''deleted'', VBool True)]))
      \<and> (sdk_ref c (VStr i) = Inr (c', i') \<and> fault w = None
           \<and> map_of (colls w c') i' = Some old \<longrightarrow>
           deleteRecordSoft w c i =
             (Resolved (),
              w\<lparr>colls := (colls w)(c' := AList.update i'
                   (old(''updated_at'' \<mapsto> VTime (clock w), ''updated_by'' \<mapsto> VStr uid,
                        ''deleted'' \<mapsto> VBool True))
                   (colls w c'))\<rparr>))
      \<and> (valid_collection c \<and> valid_doc_id i \<longrightarrow> sdk_ref c (VStr i) = Inr (c, i)))
   \<and> (current_user w = None \<longrightarrow> deleteRecordSoft w c i = (Thrown TypeError, w))"
proof (intro conjI impI)
  assume u: "current_user w = Some uid"
  let ?d = "[(''updated_at'', VTime (clock w)), (''updated_by'', VStr uid), (''deleted'', VBool True)]"
  let ?e = "AList.update ''updated_at'' (VTime (clock w))
              [(''updated_by'', VStr uid), (''deleted'', VBool True)]"
  have ed: "editRecord w c i [(''updated_by'', VStr uid), (''deleted'', VBool True)] =
      (case sdk_ref c (VStr i) of
         Inl e \<Rightarrow> (Rejected e, w, ?e)
       | Inr ref \<Rightarrow>
           (case sdk_update w (fst ref) (snd ref) ?d of
              Inl e \<Rightarrow> (Rejected e, w, ?e)
            | Inr (s, w') \<Rightarrow> (Resolved s, w', ?e)))"
    unfolding editRecord_def Let_def soft_delete_same_update by (rule refl)
  have dl: "deleteRecordSoft w c i =
      (case sdk_ref c (VStr i) of
         Inl e \<Rightarrow> (Rejected e, w)
       | Inr ref \<Rightarrow>
           (case sdk_update w (fst ref) (snd ref) ?d of
              Inl e \<Rightarrow> (Rejected e, w)
            | Inr (s, w') \<Rightarrow> (Resolved (), w')))"
    using u by (simp add: deleteRecordSoft_def Let_def)
  show "fst (deleteRecordSoft w c i) =
        map_outcome (\<lambda>s. ())
          (fst (editRecord w c i [(''updated_by'', VStr uid), (''deleted'', VBool True)]))"
    unfolding ed dl by (simp split: sum.splits prod.splits)
  show "snd (deleteRecordSoft w c i) =
          fst (snd (editRecord w c i [(''updated_by'', VStr uid), (''deleted'', VBool True)]))"
    unfolding ed dl by (simp split: sum.splits prod.splits)
  {
    assume "sdk_ref c (VStr i) = Inr (c', i') \<and> fault w = None \<and> map_of (colls w c') i' = Some old"
    then have r: "sdk_ref c (VStr i) = Inr (c', i')" and f: "fault w = None"
      and o: "map_of (colls w c') i' = Some old" by simp_all
    have su: "sdk_update w c' i' ?d =
        Inr (VUndefined,
             w\<lparr>colls := (colls w)(c' := AList.update i'
                   (old(''updated_at'' \<mapsto> VTime (clock w), ''updated_by'' \<mapsto> VStr uid,
                        ''deleted'' \<mapsto> VBool True))
                   (colls w c'))\<rparr>)"
      using sdk_update_ok [OF soft_delete_update_ok f o, of "clock w" uid True]
      unfolding soft_delete_apply .
    show "deleteRecordSoft w c i =
             (Resolved (),
              w\<lparr>colls := (colls w)(c' := AList.update i'
                   (old(''updated_at'' \<mapsto> VTime (clock w), ''updated_by'' \<mapsto> VStr uid,
                        ''deleted'' \<mapsto> VBool True))
                   (colls w c'))\<rparr>)"
      unfolding dl r by (simp add: su)
  }
  {
    assume "valid_collection c \<and> valid_doc_id i"
    then show "sdk_ref c (VStr i) = Inr (c, i)" by (simp add: sdk_ref_plain)
  }
next
  assume "current_user w = None"
  then show "deleteRecordSoft w c i = (Thrown TypeError, w)"
    by (simp add: deleteRecordSoft_def)
qed

theorem deleteRecordSoft_is_update_witness:
  "current_user demo_world = Some ''u7''
   \<and> fault demo_world = None
   \<and> valid_collection ''users'' \<and> valid_doc_id ''u1''
   \<and> map_of (colls demo_world ''users'') ''u1'' =
       Some [''id'' \<mapsto> VStr ''u1'', ''name'' \<mapsto> VStr ''Al'', ''created_at'' \<mapsto> VTime 90]
   \<and> fst (deleteRecordSoft demo_world ''users'' ''u1'') = Resolved ()
   \<and> map_of (colls (snd (deleteRecordSoft demo_world ''users'' ''u1'')) ''users'') ''u1'' =
       Some [''id'' \<mapsto> VStr ''u1'', ''name'' \<mapsto> VStr ''Al'', ''created_at'' \<mapsto> VTime 90,
             ''updated_at'' \<mapsto> VTime 100, ''updated_by'' \<mapsto> VStr ''u7'',
             ''deleted'' \<mapsto> VBool True]
   \<and> current_user (demo_world\<lparr>current_user := None\<rparr>) = None
   \<and> deleteRecordSoft (demo_world\<lparr>current_user := None\<rparr>) ''users'' ''u1'' =
       (Thrown TypeError, demo_world\<lparr>current_user := None\<rparr>)"
proof -
  let ?old = "[''id'' \<mapsto> VStr ''u1'', ''name'' \<mapsto> VStr ''Al'', ''created_at'' \<mapsto> VTime 90]"
  have u: "current_user demo_world = Some ''u7''" by (simp add: demo_world_def)
  have f: "fault demo_world = None" by (simp add: demo_world_def)
  have vc: "valid_collection ''users''"
    by (simp add: valid_collection_def segments_ok_def segment_ok_def reserved_def)
  have vi: "valid_doc_id ''u1''" by (simp add: valid_doc_id_def segment_ok_def reserved_def)
  have o: "map_of (colls demo_world ''users'') ''u1'' = Some ?old"
    by (simp add: demo_world_def users_def)
  have c: "clock demo_world = 100" by (simp add: demo_world_def)
  have n: "current_user (demo_world\<lparr>current_user := None\<rparr>) = None" by simp
  note t = deleteRecordSoft_is_update
             [where w = demo_world and uid = "''u7''" and c = "''users''" and i = "''u1''"
                and c' = "''users''" and i' = "''u1''"
                and old = ?old, THEN conjunct1, rule_format, OF u]
  note rf = t [THEN conjunct2, THEN conjunct2, THEN conjunct2, rule_format, OF conjI [OF vc vi]]
  note t3 = t [THEN conjunct2, THEN conjunct2, THEN conjunct1, rule_format,
               OF conjI [OF rf conjI [OF f o]]]
  have r1: "fst (deleteRecordSoft demo_world ''users'' ''u1'') = Resolved ()"
    unfolding t3 by simp
  have r2: "map_of (colls (snd (deleteRecordSoft demo_world ''users'' ''u1'')) ''users'') ''u1'' =
       Some [''id'' \<mapsto> VStr ''u1'', ''name'' \<mapsto> VStr ''Al'', ''created_at'' \<mapsto> VTime 90,
             ''updated_at'' \<mapsto> VTime 100, ''updated_by'' \<mapsto> VStr ''u7'',
             ''deleted'' \<mapsto> VBool True]"
    unfolding t3 by (simp add: update_conv' c)
  note r3 = deleteRecordSoft_is_update
             [where w = "demo_world\<lparr>current_user := None\<rparr>" and c = "''users''"
                and i = "''u1''", THEN conjunct2, rule_format, OF n]
  show ?thesis
    using u f vc vi o r1 r2 n r3 by (intro conjI)
qed

text \<open>
  Signed out, the call does not return a promise that rejects: it throws.
\<close>

theorem deleteRecordSoft_signed_out_throws:
  "deleteRecordSoft (demo_world\<lparr>current_user := None\<rparr>) ''users'' ''u1''
     = (Thrown TypeError, demo_world\<lparr>current_user := None\<rparr>)
   \<and> \<not> is_rejected (fst (deleteRecordSoft (demo_world\<lparr>current_user := None\<rparr>) ''users'' ''u1''))"
  by (simp add: deleteRecordSoft_def is_rejected_def)

text \<open>
  C5. When \<^verbatim>\<open>fetch(uri)\<close> rejects, or the response's \<^verbatim>\<open>blob()\<close> rejects, the promise
  that \<^verbatim>\<open>storeImageOnFirestore\<close> returned is never settled: it neither rejects nor
  resolves, and nothing is written. So it is for the upload of a file that cannot be read.
\<close>

theorem storeImage_read_failure_never_settles:
  "storeImageOnFirestore (s\<lparr>fetch := (fetch s)(uri := Inl e)\<rparr>) c u uri
     = (Pending, s\<lparr>fetch := (fetch s)(uri := Inl e)\<rparr>)
   \<and> storeImageOnFirestore (s\<lparr>fetch := (fetch s)(uri := Inr (Inl e))\<rparr>) c u uri
     = (Pending, s\<lparr>fetch := (fetch s)(uri := Inr (Inl e))\<rparr>)
   \<and> storeImageOnFirestore demo_storage ''avatars'' ''u7'' ''file:///missing.png''
     = (Pending, demo_storage)
   \<and> \<not> is_settled (fst (storeImageOnFirestore demo_storage ''avatars'' ''u7''
                           ''file:///missing.png''))"
  by (simp add: storeImageOnFirestore_def demo_storage_def is_settled_def)

text \<open>
  C6, as amended. For a well-formed collection name, a record whose values the store
  accepts and an answering store: a record whose \<^verbatim>\<open>id\<close> is absent or \<^verbatim>\<open>null\<close> is stored
  under the id that the store generates, which is non-empty and new to the collection, so
  every document already there is kept, the collection grows by one, and the next
  generated id is a different one; a record with an explicit id \<open>X\<close> that is one non-empty
  path segment is stored under \<open>X\<close> exactly, replacing whatever was at \<open>X\<close>, without
  error, and no other document changes.
\<close>

theorem addRecord_id_resolution:
  assumes "fault w = None" and "valid_collection c" and "storable_props data"
  shows "(js_prop data ''id'' = VUndefined \<or> js_prop data ''id'' = VNull \<longrightarrow>
           (\<exists>w'. addRecord w c data =
                   (Resolved [(''id'', VStr (sdk_new_id w c))], w',
                    stamped w (sdk_new_id w c) data) \<and>
                 sdk_new_id w c \<noteq> [] \<and>
                 map_of (colls w c) (sdk_new_id w c) = None \<and>
                 map_of (colls w' c) (sdk_new_id w c) =
                   Some (map_of (stamped w (sdk_new_id w c) data)) \<and>
                 (\<forall>j fs. map_of (colls w c) j = Some fs \<longrightarrow>
                         map_of (colls w' c) j = Some fs) \<and>
                 length (colls w' c) = Suc (length (colls w c)) \<and>
                 sdk_new_id w' c \<noteq> sdk_new_id w c)) \<and>
         (js_prop data ''id'' = VStr X \<and> valid_doc_id X \<longrightarrow>
           (\<exists>w'. addRecord w c data = (Resolved [(''id'', VStr X)], w', stamped w X data) \<and>
                 map_of (colls w' c) X = Some (map_of (stamped w X data)) \<and>
                 (\<forall>j. j \<noteq> X \<longrightarrow> map_of (colls w' c) j = map_of (colls w c) j)))"
proof (intro conjI impI)
  assume a: "js_prop data ''id'' = VUndefined \<or> js_prop data ''id'' = VNull"
  let ?i = "sdk_new_id w c"
  let ?d = "stamped w ?i data"
  let ?w' = "w\<lparr>colls := (colls w)(c := AList.update ?i (map_of ?d) (colls w c))\<rparr>"
  note fr = sdk_new_id_fresh [of w c]
  have nr: "new_ref w c data = Inr (c, ?i)"
    using a assms(2) by (simp add: new_ref_def sdk_collection_def)
  have 1: "addRecord w c data = (Resolved [(''id'', VStr ?i)], ?w', ?d)"
    by (simp add: addRecord_with_ref [OF nr]
        sdk_set_ok [OF storable_stamped [OF assms(3)] assms(1)])
  have 2: "?i \<noteq> []" using fr by simp
  have 3: "map_of (colls w c) ?i = None" using fr by simp
  have 4: "map_of (colls ?w' c) ?i = Some (map_of ?d)"
    by (simp add: update_conv')
  have 5: "\<forall>j fs. map_of (colls w c) j = Some fs \<longrightarrow> map_of (colls ?w' c) j = Some fs"
    using 3 by (auto simp: update_conv')
  have 6: "length (colls ?w' c) = Suc (length (colls w c))"
    using 3 by (simp add: length_update_fresh)
  have 7: "sdk_new_id ?w' c \<noteq> ?i"
  proof
    assume e: "sdk_new_id ?w' c = ?i"
    have "map_of (colls ?w' c) (sdk_new_id ?w' c) = None"
      using sdk_new_id_fresh [of ?w' c] by simp
    with e 4 show False by simp
  qed
  show "\<exists>w'. addRecord w c data =
                   (Resolved [(''id'', VStr (sdk_new_id w c))], w',
                    stamped w (sdk_new_id w c) data) \<and>
                 sdk_new_id w c \<noteq> [] \<and>
                 map_of (colls w c) (sdk_new_id w c) = None \<and>
                 map_of (colls w' c) (sdk_new_id w c) =
                   Some (map_of (stamped w (sdk_new_id w c) data)) \<and>
                 (\<forall>j fs. map_of (colls w c) j = Some fs \<longrightarrow>
                         map_of (colls w' c) j = Some fs) \<and>
                 length (colls w' c) = Suc (length (colls w c)) \<and>
                 sdk_new_id w' c \<noteq> sdk_new_id w c"
    using 1 2 3 4 5 6 7 by (intro exI [of _ ?w'] conjI)
next
  assume "js_prop data ''id'' = VStr X \<and> valid_doc_id X"
  then have a: "js_prop data ''id'' = VStr X" and v: "valid_doc_id X" by simp_all
  let ?d = "stamped w X data"
  let ?w' = "w\<lparr>colls := (colls w)(c := AList.update X (map_of ?d) (colls w c))\<rparr>"
  have nr: "new_ref w c data = Inr (c, X)"
    using a by (simp add: new_ref_def sdk_ref_plain [OF assms(2) v])
  have 1: "addRecord w c data = (Resolved [(''id'', VStr X)], ?w', ?d)"
    by (simp add: addRecord_with_ref [OF nr]
        sdk_set_ok [OF storable_stamped [OF assms(3)] assms(1)])
  have 2: "map_of (colls ?w' c) X = Some (map_of ?d)"
    by (simp add: update_conv')
  have 3: "\<forall>j. j \<noteq> X \<longrightarrow> map_of (colls ?w' c) j = map_of (colls w c) j"
    by (simp add: update_conv')
  show "\<exists>w'. addRecord w c data = (Resolved [(''id'', VStr X)], w', stamped w X data) \<and>
                 map_of (colls w' c) X = Some (map_of (stamped w X data)) \<and>
                 (\<forall>j. j \<noteq> X \<longrightarrow> map_of (colls w' c) j = map_of (colls w c) j)"
    using 1 2 3 by (intro exI [of _ ?w'] conjI)
qed

theorem addRecord_id_resolution_witness:
  "fault demo_world = None
   \<and> valid_collection ''users''
   \<and> storable_props [(''name'', VStr ''Al'')]
   \<and> js_prop [(''name'', VStr ''Al'')] ''id'' = VUndefined
   \<and> fst (addRecord demo_world ''users'' [(''name'', VStr ''Al'')])
       = Resolved [(''id'', VStr ''gen1'')]
   \<and> length (colls (fst (snd (addRecord demo_world ''users'' [(''name'', VStr ''Al'')])))
         ''users'') = 2
   \<and> storable_props [(''id'', VStr ''u1''), (''name'', VStr ''Ala'')]
   \<and> js_prop [(''id'', VStr ''u1''), (''name'', VStr ''Ala'')] ''id'' = VStr ''u1''
   \<and> valid_doc_id ''u1''
   \<and> fst (addRecord demo_world ''users'' [(''id'', VStr ''u1''), (''name'', VStr ''Ala'')])
       = Resolved [(''id'', VStr ''u1'')]
   \<and> map_of (colls (fst (snd (addRecord demo_world ''users''
                                  [(''id'', VStr ''u1''), (''name'', VStr ''Ala'')]))) ''users'')
         ''u1''
       = Some (map_of [(''id'', VStr ''u1''), (''name'', VStr ''Ala''),
                       (''created_at'', VTime 100)])"
proof -
  have h: "fault demo_world = None" by (simp add: demo_world_def)
  have vc: "valid_collection ''users''"
    by (simp add: valid_collection_def segments_ok_def segment_ok_def reserved_def)
  have sa: "storable_props [(''name'', VStr ''Al'')]" by (simp add: reserved_def)
  have sb: "storable_props [(''id'', VStr ''u1''), (''name'', VStr ''Ala'')]"
    by (simp add: reserved_def)
  have a: "js_prop [(''name'', VStr ''Al'')] ''id'' = VUndefined \<or>
           js_prop [(''name'', VStr ''Al'')] ''id'' = VNull"
    by (simp add: js_prop_def)
  have a': "js_prop [(''name'', VStr ''Al'')] ''id'' = VUndefined" by (simp add: js_prop_def)
  have b: "js_prop [(''id'', VStr ''u1''), (''name'', VStr ''Ala'')] ''id'' = VStr ''u1''"
    by (simp add: js_prop_def)
  have vi: "valid_doc_id ''u1''" by (simp add: valid_doc_id_def segment_ok_def reserved_def)
  have g: "sdk_new_id demo_world ''users'' = ''gen1''" "length (colls demo_world ''users'') = 1"
    by (simp_all add: sdk_new_id_def demo_world_def users_def)
  have s2: "stamped demo_world ''u1'' [(''id'', VStr ''u1''), (''name'', VStr ''Ala'')] =
            [(''id'', VStr ''u1''), (''name'', VStr ''Ala''), (''created_at'', VTime 100)]"
    by (simp add: stamped_def demo_world_def)
  note t1 = addRecord_id_resolution
         [OF h vc sa, THEN conjunct1, rule_format, OF a]
  then obtain w1 where r1:
    "addRecord demo_world ''users'' [(''name'', VStr ''Al'')] =
       (Resolved [(''id'', VStr (sdk_new_id demo_world ''users''))], w1,
        stamped demo_world (sdk_new_id demo_world ''users'') [(''name'', VStr ''Al'')])"
    "length (colls w1 ''users'') = Suc (length (colls demo_world ''users''))"
    by (elim exE conjE)
  note t2 = addRecord_id_resolution
         [OF h vc sb, where X = "''u1''", THEN conjunct2, rule_format, OF conjI [OF b vi]]
  then obtain w2 where r2:
    "addRecord demo_world ''users'' [(''id'', VStr ''u1''), (''name'', VStr ''Ala'')] =
       (Resolved [(''id'', VStr ''u1'')], w2,
        stamped demo_world ''u1'' [(''id'', VStr ''u1''), (''name'', VStr ''Ala'')])"
    "map_of (colls w2 ''users'') ''u1'' =
       Some (map_of (stamped demo_world ''u1''
                       [(''id'', VStr ''u1''), (''name'', VStr ''Ala'')]))"
    by (elim exE conjE)
  have c1: "fst (addRecord demo_world ''users'' [(''name'', VStr ''Al'')])
              = Resolved [(''id'', VStr ''gen1'')]"
    by (simp add: r1(1) g)
  have c2: "length (colls (fst (snd (addRecord demo_world ''users'' [(''name'', VStr ''Al'')])))
              ''users'') = 2"
    by (simp add: r1 g)
  have c3: "fst (addRecord demo_world ''users'' [(''id'', VStr ''u1''), (''name'', VStr ''Ala'')])
              = Resolved [(''id'', VStr ''u1'')]"
    by (simp add: r2(1))
  have c4: "map_of (colls (fst (snd (addRecord demo_world ''users''
                                  [(''id'', VStr ''u1''), (''name'', VStr ''Ala'')]))) ''users'')
              ''u1''
            = Some (map_of [(''id'', VStr ''u1''), (''name'', VStr ''Ala''),
                            (''created_at'', VTime 100)])"
    unfolding r2(1) using r2(2) unfolding s2 by simp
  show ?thesis
    by (intro conjI) (rule h, rule vc, rule sa, rule a', rule c1, rule c2, rule sb, rule b,
        rule vi, rule c3, rule c4)
qed

text \<open>
  An explicit id that is the empty string is not stored under: \<^verbatim>\<open>doc(data.id)\<close> throws,
  the promise rejects and the store is as before.
\<close>

theorem addRecord_empty_id_rejects:
  "js_prop [(''id'', VStr []), (''name'', VStr ''Al'')] ''id'' = VStr []
   \<and> addRecord demo_world ''users'' [(''id'', VStr []), (''name'', VStr ''Al'')]
       = (Rejected InvalidArgument, demo_world,
          [(''id'', VStr []), (''name'', VStr ''Al''), (''created_at'', VTime 100)])"
  by (simp add: addRecord_def Let_def new_ref_def js_prop_def sdk_ref_def sdk_collection_def
      valid_collection_def segments_ok_def segment_ok_def reserved_def doc_of_path_def demo_world_def)

text \<open>
  C7, as amended. For an existing record under a well-formed collection name and id, an
  answering store, and a partial record whose keys are plain field names and whose values
  the store accepts, \<^verbatim>\<open>editRecord\<close> resolves; the stored record then has \<^verbatim>\<open>updated_at\<close>
  equal to the reading of the client's clock, every field that is neither a key of the
  partial record nor \<^verbatim>\<open>updated_at\<close> has its value from before, every key of the partial
  record other than \<^verbatim>\<open>updated_at\<close> has the supplied value, and no other document
  changes.
\<close>

theorem editRecord_partial_merge:
  assumes "fault w = None" and "valid_collection c" and "valid_doc_id i"
    and "map_of (colls w c) i = Some old"
    and "list_all (\<lambda>kv. flat_field (fst kv)) data" and "storable_props data"
  shows "\<exists>w' new.
           editRecord w c i data =
             (Resolved VUndefined, w', AList.update ''updated_at'' (VTime (clock w)) data) \<and>
           map_of (colls w' c) i = Some new \<and>
           new ''updated_at'' = Some (VTime (clock w)) \<and>
           (\<forall>k. k \<notin> fst ` set data \<and> k \<noteq> ''updated_at'' \<longrightarrow> new k = old k) \<and>
           (\<forall>k v. k \<noteq> ''updated_at'' \<and> map_of data k = Some v \<longrightarrow> new k = Some v) \<and>
           (\<forall>j. j \<noteq> i \<longrightarrow> map_of (colls w' c) j = map_of (colls w c) j)"
proof -
  let ?d = "AList.update ''updated_at'' (VTime (clock w)) data"
  let ?new = "old ++ map_of ?d"
  let ?w' = "w\<lparr>colls := (colls w)(c := AList.update i ?new (colls w c))\<rparr>"
  have fl: "list_all (\<lambda>kv. flat_field (fst kv)) ?d"
    using assms(5)
    by (induction data) (auto simp: flat_field_def soft_delete_keys)
  have st: "storable_props ?d"
    using assms(6) by (simp add: storable_props_update reserved_def)
  have ok: "update_ok ?d" using fl st by (rule update_ok_flat)
  have "editRecord w c i data = (Resolved VUndefined, ?w', ?d)"
    by (simp add: editRecord_def Let_def sdk_ref_plain [OF assms(2,3)]
        sdk_update_ok [OF ok assms(1,4)] apply_update_flat [OF fl])
  moreover have "map_of (colls ?w' c) i = Some ?new"
    by (simp add: update_conv')
  moreover have "?new ''updated_at'' = Some (VTime (clock w))"
    by (simp add: update_conv')
  moreover have "\<forall>k. k \<notin> fst ` set data \<and> k \<noteq> ''updated_at'' \<longrightarrow> ?new k = old k"
  proof (intro allI impI)
    fix k
    assume k: "k \<notin> fst ` set data \<and> k \<noteq> ''updated_at''"
    then have "map_of data k = None" by (simp add: map_of_eq_None_iff)
    with k show "?new k = old k" by (simp add: update_conv' map_add_def)
  qed
  moreover have "\<forall>k v. k \<noteq> ''updated_at'' \<and> map_of data k = Some v \<longrightarrow> ?new k = Some v"
    by (simp add: update_conv' map_add_def)
  moreover have "\<forall>j. j \<noteq> i \<longrightarrow> map_of (colls ?w' c) j = map_of (colls w c) j"
    by (simp add: update_conv')
  ultimately show ?thesis
    by (intro exI [of _ ?w'] exI [of _ ?new] conjI)
qed

theorem editRecord_partial_merge_witness:
  "fault demo_world = None
   \<and> valid_collection ''users'' \<and> valid_doc_id ''u1''
   \<and> map_of (colls demo_world ''users'') ''u1'' =
       Some [''id'' \<mapsto> VStr ''u1'', ''name'' \<mapsto> VStr ''Al'', ''created_at'' \<mapsto> VTime 90]
   \<and> list_all (\<lambda>kv. flat_field (fst kv)) [(''name'', VStr ''Ala'')]
   \<and> storable_props [(''name'', VStr ''Ala'')]
   \<and> (\<exists>w' new.
         editRecord demo_world ''users'' ''u1'' [(''name'', VStr ''Ala'')] =
           (Resolved VUndefined, w', [(''name'', VStr ''Ala''), (''updated_at'', VTime 100)]) \<and>
         map_of (colls w' ''users'') ''u1'' = Some new \<and>
         new ''updated_at'' = Some (VTime 100) \<and>
         new ''name'' = Some (VStr ''Ala'') \<and>
         new ''id'' = Some (VStr ''u1'') \<and>
         new ''created_at'' = Some (VTime 90))"
proof -
  have h: "fault demo_world = None" by (simp add: demo_world_def)
  have vc: "valid_collection ''users''"
    by (simp add: valid_collection_def segments_ok_def segment_ok_def reserved_def)
  have vi: "valid_doc_id ''u1''" by (simp add: valid_doc_id_def segment_ok_def reserved_def)
  have e: "map_of (colls demo_world ''users'') ''u1'' =
       Some [''id'' \<mapsto> VStr ''u1'', ''name'' \<mapsto> VStr ''Al'', ''created_at'' \<mapsto> VTime 90]"
    by (simp add: demo_world_def users_def)
  have fl: "list_all (\<lambda>kv. flat_field (fst kv)) [(''name'', VStr ''Ala'')]"
    by (simp add: flat_field_def update_path_def field_path_def reserved_def)
  have st: "storable_props [(''name'', VStr ''Ala'')]" by (simp add: reserved_def)
  have c: "clock demo_world = 100" by (simp add: demo_world_def)
  from editRecord_partial_merge [OF h vc vi e fl st]
  obtain w' new where r:
    "editRecord demo_world ''users'' ''u1'' [(''name'', VStr ''Ala'')] =
       (Resolved VUndefined, w',
        AList.update ''updated_at'' (VTime (clock demo_world)) [(''name'', VStr ''Ala'')])"
    "map_of (colls w' ''users'') ''u1'' = Some new"
    "new ''updated_at'' = Some (VTime (clock demo_world))"
    "\<forall>k. k \<notin> fst ` set [(''name'', VStr ''Ala'')] \<and> k \<noteq> ''updated_at'' \<longrightarrow>
         new k = [''id'' \<mapsto> VStr ''u1'', ''name'' \<mapsto> VStr ''Al'', ''created_at'' \<mapsto> VTime 90] k"
    "\<forall>k v. k \<noteq> ''updated_at'' \<and> map_of [(''name'', VStr ''Ala'')] k = Some v \<longrightarrow>
           new k = Some v"
    by (elim exE conjE)
  have r1: "editRecord demo_world ''users'' ''u1'' [(''name'', VStr ''Ala'')] =
           (Resolved VUndefined, w', [(''name'', VStr ''Ala''), (''updated_at'', VTime 100)])"
    by (simp add: r(1) c)
  have r3: "new ''updated_at'' = Some (VTime 100)" by (simp add: r(3) c)
  have n1: "new ''name'' = Some (VStr ''Ala'')"
    using r(5) [rule_format, of "''name''" "VStr ''Ala''"] by simp
  have n2: "new ''id'' = Some (VStr ''u1'')"
    using r(4) [rule_format, of "''id''"] by simp
  have n3: "new ''created_at'' = Some (VTime 90)"
    using r(4) [rule_format, of "''created_at''"] by simp
  have "\<exists>w' new.
         editRecord demo_world ''users'' ''u1'' [(''name'', VStr ''Ala'')] =
           (Resolved VUndefined, w', [(''name'', VStr ''Ala''), (''updated_at'', VTime 100)]) \<and>
         map_of (colls w' ''users'') ''u1'' = Some new \<and>
         new ''updated_at'' = Some (VTime 100) \<and>
         new ''name'' = Some (VStr ''Ala'') \<and>
         new ''id'' = Some (VStr ''u1'') \<and>
         new ''created_at'' = Some (VTime 90)"
    using r1 r(2) r3 n1 n2 n3 by (intro exI [of _ w'] exI [of _ new] conjI)
  then show ?thesis using h vc vi e fl st by (intro conjI)
qed

text \<open>
  A dotted key is a path: \<^verbatim>\<open>editRecord("places", "p1", {"address.city": "Rome"})\<close>
  changes the field \<^verbatim>\<open>address\<close>, which is not a key of the partial record.
\<close>

theorem editRecord_dotted_key_changes_parent:
  "map_of (colls demo_world ''places'') ''p1'' =
     Some [''address'' \<mapsto> VObj [(''city'', VStr ''Oslo''), (''zip'', VStr ''0150'')]]
   \<and> ''address'' \<notin> fst ` set [(''address.city'', VStr ''Rome'')]
   \<and> fst (editRecord demo_world ''places'' ''p1'' [(''address.city'', VStr ''Rome'')])
       = Resolved VUndefined
   \<and> map_of (colls (fst (snd (editRecord demo_world ''places'' ''p1''
                                  [(''address.city'', VStr ''Rome'')]))) ''places'') ''p1''
       = Some [''updated_at'' \<mapsto> VTime 100,
               ''address'' \<mapsto> VObj [(''city'', VStr ''Rome''), (''zip'', VStr ''0150'')]]"
  by (simp add: editRecord_def Let_def sdk_ref_def sdk_collection_def valid_collection_def
      segments_ok_def segment_ok_def reserved_def doc_of_path_def sdk_update_def update_path_def
      field_path_def demo_world_def places_def)

text \<open>
  C8, as amended. For a well-formed collection name and a document id that is one
  non-empty path segment, with the store answering, \<^verbatim>\<open>deleteRecord\<close> resolves whether or
  not a record exists at the id; when none exists the store is left as it was; deleting
  again resolves and changes nothing; and \<^verbatim>\<open>getRecord\<close> on the same id afterwards
  resolves with a snapshot that does not exist.
\<close>

theorem deleteRecord_absent_ok:
  assumes "fault w = None" and "valid_collection c" and "valid_doc_id i"
  shows "\<exists>w'. deleteRecord w c i = (Resolved (), w') \<and>
              map_of (colls w' c) i = None \<and>
              (map_of (colls w c) i = None \<longrightarrow> w' = w) \<and>
              deleteRecord w' c i = (Resolved (), w') \<and>
              getRecord w' c i = Resolved (VSnap i None) \<and>
              \<not> snapshot_exists (VSnap i None)"
proof -
  let ?w' = "w\<lparr>colls := (colls w)(c := AList.delete i (colls w c))\<rparr>"
  note r = sdk_ref_plain [OF assms(2,3)]
  have f': "fault ?w' = None" using assms(1) by simp
  have d: "deleteRecord w c i = (Resolved (), ?w')"
    using assms(1) by (simp add: deleteRecord_def r sdk_delete_def)
  have g: "map_of (colls ?w' c) i = None"
    by (simp add: delete_conv')
  have same: "map_of (colls w c) i = None \<longrightarrow> ?w' = w"
  proof
    assume "map_of (colls w c) i = None"
    then have "i \<notin> fst ` set (colls w c)" by (simp add: map_of_eq_None_iff)
    then have "AList.delete i (colls w c) = colls w c" by (rule delete_id)
    then show "?w' = w" by simp
  qed
  have again: "deleteRecord ?w' c i = (Resolved (), ?w')"
    using f' by (simp add: deleteRecord_def r sdk_delete_def delete_idem)
  have get: "getRecord ?w' c i = Resolved (VSnap i None)"
    using f' g by (simp add: getRecord_def r sdk_get_doc_def)
  have ne: "\<not> snapshot_exists (VSnap i None)"
    by (simp add: snapshot_exists_def)
  show ?thesis
    using d g same again get ne by (intro exI [of _ ?w'] conjI)
qed

theorem deleteRecord_absent_ok_witness:
  "fault demo_world = None
   \<and> valid_collection ''users'' \<and> valid_doc_id ''nobody''
   \<and> map_of (colls demo_world ''users'') ''nobody'' = None
   \<and> deleteRecord demo_world ''users'' ''nobody'' = (Resolved (), demo_world)
   \<and> getRecord demo_world ''users'' ''nobody'' = Resolved (VSnap ''nobody'' None)"
proof -
  have h: "fault demo_world = None" by (simp add: demo_world_def)
  have vc: "valid_collection ''users''"
    by (simp add: valid_collection_def segments_ok_def segment_ok_def reserved_def)
  have vi: "valid_doc_id ''nobody''" by (simp add: valid_doc_id_def segment_ok_def reserved_def)
  have a: "map_of (colls demo_world ''users'') ''nobody'' = None"
    by (simp add: demo_world_def users_def)
  from deleteRecord_absent_ok [OF h vc vi]
  obtain w' where r:
    "deleteRecord demo_world ''users'' ''nobody'' = (Resolved (), w') \<and>
     map_of (colls w' ''users'') ''nobody'' = None \<and>
     (map_of (colls demo_world ''users'') ''nobody'' = None \<longrightarrow> w' = demo_world) \<and>
     deleteRecord w' ''users'' ''nobody'' = (Resolved (), w') \<and>
     getRecord w' ''users'' ''nobody'' = Resolved (VSnap ''nobody'' None) \<and>
     \<not> snapshot_exists (VSnap ''nobody'' None)"
    by (rule exE)
  have w: "w' = demo_world"
    using r a by (elim conjE) (erule mp)
  have d: "deleteRecord demo_world ''users'' ''nobody'' = (Resolved (), demo_world)"
    using r unfolding w by (elim conjE)
  have g: "getRecord demo_world ''users'' ''nobody'' = Resolved (VSnap ''nobody'' None)"
    using r unfolding w by (elim conjE)
  show ?thesis
    using h vc vi a d g by (intro conjI)
qed

text \<open>
  For the empty id, where no record exists, \<^verbatim>\<open>doc(id)\<close> throws inside the executor:
  \<^verbatim>\<open>deleteRecord\<close> rejects, and so does \<^verbatim>\<open>getRecord\<close>.
\<close>

theorem deleteRecord_empty_id_rejects:
  "map_of (colls demo_world ''users'') [] = None
   \<and> deleteRecord demo_world ''users'' [] = (Rejected InvalidArgument, demo_world)
   \<and> getRecord demo_world ''users'' [] = Rejected InvalidArgument"
  by (simp add: deleteRecord_def getRecord_def sdk_ref_def sdk_collection_def
      valid_collection_def segments_ok_def segment_ok_def reserved_def doc_of_path_def demo_world_def users_def)

text \<open>
  C9. With \<^verbatim>\<open>queryArray\<close>, \<^verbatim>\<open>orderBy\<close>, \<^verbatim>\<open>startAfter\<close> and \<^verbatim>\<open>limit\<close> all
  \<^verbatim>\<open>null\<close> (or left out), \<^verbatim>\<open>getRecordWithQuery\<close> makes no builder call, reads the bare
  collection reference, and settles exactly as \<^verbatim>\<open>getRecordAll\<close> does.
\<close>

theorem getRecordWithQuery_all_null:
  "query_calls None None VNull VNull = []
   \<and> run_calls (new_query c) (query_calls None None VNull VNull) = Inr (new_query c)
   \<and> getRecordWithQuery w c None None VNull VNull = getRecordAll w c
   \<and> getRecordWithQuery w c None None VUndefined VUndefined = getRecordAll w c"
  by (simp add: query_calls_def getRecordWithQuery_def getRecordAll_def default_null_def
      split: sum.splits)

text \<open>
  C10. \<^verbatim>\<open>addRecord\<close> writes to the caller's object: once the document reference exists,
  the object holds \<^verbatim>\<open>created_at\<close> and the reference's id, it is this object that is
  handed to the write, and the object stays so when the write fails and the promise
  rejects.
\<close>

theorem addRecord_mutates_caller_object:
  assumes "new_ref w c data = Inr (c', rid)"
  shows "snd (snd (addRecord w c data)) = stamped w rid data
     \<and> js_prop (stamped w rid data) ''created_at'' = VTime (clock w)
     \<and> js_prop (stamped w rid data) ''id'' = VStr rid
     \<and> addRecord w c data =
         (case sdk_set w c' rid (stamped w rid data) of
            Inl e \<Rightarrow> (Rejected e, w, stamped w rid data)
          | Inr (s, w') \<Rightarrow> (Resolved [(''id'', VStr rid)], w', stamped w rid data))
     \<and> (fault w = Some e \<longrightarrow>
          addRecord w c data =
            (Rejected (if storable_props (stamped w rid data) then e else InvalidArgument),
             w, stamped w rid data))"
proof -
  note eq = addRecord_with_ref [OF assms]
  have 1: "snd (snd (addRecord w c data)) = stamped w rid data"
    unfolding eq by (simp split: sum.splits prod.splits)
  have 2: "js_prop (stamped w rid data) ''created_at'' = VTime (clock w)"
    by (simp add: stamped_def js_prop_update_other js_prop_update_same)
  have 3: "js_prop (stamped w rid data) ''id'' = VStr rid"
    by (simp add: stamped_def js_prop_update_same)
  have 4: "fault w = Some e \<longrightarrow>
          addRecord w c data =
            (Rejected (if storable_props (stamped w rid data) then e else InvalidArgument),
             w, stamped w rid data)"
    unfolding eq by (simp add: sdk_set_def)
  show ?thesis using 1 2 3 eq 4 by (intro conjI)
qed

theorem addRecord_mutates_caller_object_witness:
  "new_ref (demo_world\<lparr>fault := Some (Backend ''permission-denied'')\<rparr>) ''users''
       [(''name'', VStr ''Al'')]
     = Inr (''users'', ''gen1'')
   \<and> fault (demo_world\<lparr>fault := Some (Backend ''permission-denied'')\<rparr>)
       = Some (Backend ''permission-denied'')
   \<and> addRecord (demo_world\<lparr>fault := Some (Backend ''permission-denied'')\<rparr>) ''users''
        [(''name'', VStr ''Al'')]
      = (Rejected (Backend ''permission-denied''),
         demo_world\<lparr>fault := Some (Backend ''permission-denied'')\<rparr>,
         [(''name'', VStr ''Al''), (''created_at'', VTime 100), (''id'', VStr ''gen1'')])"
proof -
  let ?w = "demo_world\<lparr>fault := Some (Backend ''permission-denied'')\<rparr>"
  have h: "new_ref ?w ''users'' [(''name'', VStr ''Al'')] = Inr (''users'', ''gen1'')"
    by (simp add: new_ref_def js_prop_def demo_world_def sdk_collection_def valid_collection_def
        segments_ok_def segment_ok_def reserved_def sdk_new_id_def users_def)
  have f: "fault ?w = Some (Backend ''permission-denied'')" by simp
  have s: "stamped ?w ''gen1'' [(''name'', VStr ''Al'')] =
           [(''name'', VStr ''Al''), (''created_at'', VTime 100), (''id'', VStr ''gen1'')]"
    by (simp add: stamped_def demo_world_def)
  note t = addRecord_mutates_caller_object
         [OF h, where e = "Backend ''permission-denied''", THEN conjunct2, THEN conjunct2,
          THEN conjunct2, THEN conjunct2, rule_format, OF f]
  have "addRecord ?w ''users'' [(''name'', VStr ''Al'')]
      = (Rejected (Backend ''permission-denied''), ?w,
         [(''name'', VStr ''Al''), (''created_at'', VTime 100), (''id'', VStr ''gen1'')])"
    using t unfolding s by (simp add: reserved_def)
  then show ?thesis using h f by (intro conjI)
qed

end
